theory Spec2Isabelle
  imports Complex_Main "HOL-Library.Multiset"
begin

section \<open>Data model\<close>

text \<open>
  The catalog front-end works on plain JavaScript objects.  Where the code treats a
  property that is missing (\<^verbatim>\<open>undefined\<close>) and one that is \<^verbatim>\<open>null\<close> alike, the property
  is an \<open>option\<close> here, with \<open>None\<close> for both.  Arrays are lists.  Strings that the code
  only compares are lists of characters.  Numbers that the code only compares, subtracts
  and divides are rationals; years are integers.
\<close>

text \<open>
  The search query is the one string whose length and white space the code looks at.
  It is the list of its UTF-16 code units, which is what \<^verbatim>\<open>length\<close> counts.
\<close>

type_synonym code_units = "nat list"

text \<open>
  The year of a reference is the one property on which the code tells the two apart: in
  \<^verbatim>\<open>year < bound\<close> a missing year converts to NaN and \<^verbatim>\<open>null\<close> converts to \<open>0\<close>.
\<close>

datatype js_year = Missing | Null | Year int

record reference =
  year :: js_year
  paper_title :: string

type_synonym fuse_match = "string \<times> (nat \<times> nat) list"

text \<open>
  An entry of the dataset (a "method" of the catalog).  The fields \<open>name\<close> and
  \<open>pipeline_step\<close> are read without a guard by the code
  (\<^verbatim>\<open>a.name.localeCompare\<close>), so they are present strings; every field
  that the code reads through \<^verbatim>\<open>?.\<close> or tests for truthiness is optional.  The last two
  fields are the annotations that \<open>searchMethods\<close> adds to a search hit.
\<close>

record method_entry =
  method_id :: string
  name :: string
  pipeline_step :: string
  modalities :: "string list option"
  tasks :: "string list option"
  inputs :: "string list option"
  outputs :: "string list option"
  evidence_type :: "string option"
  maturity :: "string option"
  automation_level :: "string option"
  references :: "reference option"
  searchScore :: "rat option"
  searchMatches :: "fuse_match list option"

record year_range =
  yr_min :: "int option"
  yr_max :: "int option"

text \<open>
  The filter criteria.  The selectors \<open>modalities\<close> and \<open>tasks\<close> of the source carry the
  suffix \<open>_sel\<close>, since a method has fields of the same names.
\<close>

record filter_state =
  pipelineStep :: "string option"
  modalities_sel :: "string list"
  tasks_sel :: "string list"
  evidenceTypes :: "string list"
  maturityLevels :: "string list"
  yearRange :: year_range
  searchQuery :: code_units

definition FILTER_DEFAULTS :: filter_state where
  "FILTER_DEFAULTS =
     \<lparr> pipelineStep = None, modalities_sel = [], tasks_sel = [], evidenceTypes = [],
       maturityLevels = [], yearRange = \<lparr> yr_min = None, yr_max = None \<rparr>,
       searchQuery = [] \<rparr>"

subsection \<open>JavaScript truthiness and comparison\<close>

text \<open>A string is truthy when it is present and not empty.\<close>

definition truthy_str :: "string option \<Rightarrow> bool" where
  "truthy_str s = (case s of None \<Rightarrow> False | Some v \<Rightarrow> v \<noteq> [])"

text \<open>
  \<^verbatim>\<open>year < bound\<close> and \<^verbatim>\<open>year > bound\<close> for a bound that is a number: a missing year
  converts to NaN, and every relational comparison with NaN is false; \<^verbatim>\<open>null\<close> converts
  to \<open>0\<close>.
\<close>

definition js_lt :: "js_year \<Rightarrow> int \<Rightarrow> bool" where
  "js_lt y b = (case y of Missing \<Rightarrow> False | Null \<Rightarrow> 0 < b | Year v \<Rightarrow> v < b)"

definition js_gt :: "js_year \<Rightarrow> int \<Rightarrow> bool" where
  "js_gt y b = (case y of Missing \<Rightarrow> False | Null \<Rightarrow> b < 0 | Year v \<Rightarrow> b < v)"

text \<open>
  \<^verbatim>\<open>yearRange.min && year < yearRange.min\<close> and
  \<^verbatim>\<open>yearRange.max && year > yearRange.max\<close>: a bound that is \<^verbatim>\<open>null\<close> or \<open>0\<close> is falsy
  and switches its test off.
\<close>

definition below_min :: "year_range \<Rightarrow> js_year \<Rightarrow> bool" where
  "below_min r y = (case yr_min r of None \<Rightarrow> False | Some b \<Rightarrow> b \<noteq> 0 \<and> js_lt y b)"

definition above_max :: "year_range \<Rightarrow> js_year \<Rightarrow> bool" where
  "above_max r y = (case yr_max r of None \<Rightarrow> False | Some b \<Rightarrow> b \<noteq> 0 \<and> js_gt y b)"

text \<open>
  \<^verbatim>\<open>method.references?.year\<close>: \<^verbatim>\<open>undefined\<close> when there is no reference block.
\<close>

definition year_of :: "method_entry \<Rightarrow> js_year" where
  "year_of m = (case references m of None \<Rightarrow> Missing | Some r \<Rightarrow> year r)"

text \<open>
  \<^verbatim>\<open>arr?.some((x) => sel.includes(x))\<close>: \<^verbatim>\<open>undefined\<close> (falsy) when the array is missing.
\<close>

definition some_included :: "string list option \<Rightarrow> string list \<Rightarrow> bool" where
  "some_included arr sel = (case arr of None \<Rightarrow> False | Some xs \<Rightarrow> list_ex (\<lambda>x. x \<in> set sel) xs)"

text \<open>
  \<^verbatim>\<open>sel.includes(v)\<close> for a possibly missing \<open>v\<close>; the selector holds strings only.
\<close>

definition includes_opt :: "string list \<Rightarrow> string option \<Rightarrow> bool" where
  "includes_opt sel v = (case v of None \<Rightarrow> False | Some x \<Rightarrow> x \<in> set sel)"

text \<open>
  \<^verbatim>\<open>String.prototype.trim\<close> removes the white space and line terminator code points of
  ECMAScript from both ends: tab, line feed, vertical tab, form feed, carriage return,
  space, the no-break space U+00A0, U+1680, U+2000 to U+200A, the line and paragraph
  separators U+2028 and U+2029, U+202F, U+205F, U+3000 and the byte order mark U+FEFF.
  Each is one code unit.
\<close>

definition is_ws :: "nat \<Rightarrow> bool" where
  "is_ws u =
     (u \<in> set [0x09, 0x0A, 0x0B, 0x0C, 0x0D, 0x20, 0xA0, 0x1680, 0x2028, 0x2029, 0x202F,
                0x205F, 0x3000, 0xFEFF] \<or>
      (0x2000 \<le> u \<and> u \<le> 0x200A))"

definition trim :: "code_units \<Rightarrow> code_units" where
  "trim s = rev (dropWhile is_ws (rev (dropWhile is_ws s)))"

section \<open>Search\<close>

text \<open>
  The Fuse.js index is an external library object.  It is modelled by its \<^verbatim>\<open>search\<close>
  operation: a function from the query to the ranked list of hits.
\<close>

record fuse_result =
  item :: method_entry
  score :: rat
  matches :: "fuse_match list"

type_synonym search_index = "code_units \<Rightarrow> fuse_result list"

definition annotate :: "fuse_result \<Rightarrow> method_entry" where
  "annotate r = (item r)\<lparr> searchScore := Some (score r), searchMatches := Some (matches r) \<rparr>"

text \<open>\<open>None\<close> is the \<^verbatim>\<open>null\<close> that says that no search filter applies.\<close>

definition searchMethods :: "search_index \<Rightarrow> code_units \<Rightarrow> method_entry list option" where
  "searchMethods idx query =
     (if query = [] \<or> length (trim query) < 2 then None
      else Some (map annotate (idx (trim query))))"

section \<open>Filtering\<close>

text \<open>
  The callback of \<^verbatim>\<open>methods.filter\<close> in \<open>filterMethods\<close>, with its early returns in the
  order of the source.
\<close>

definition keep_method :: "filter_state \<Rightarrow> method_entry \<Rightarrow> bool" where
  "keep_method f m =
     (if truthy_str (pipelineStep f) \<and> Some (pipeline_step m) \<noteq> pipelineStep f then False
      else if modalities_sel f \<noteq> [] \<and> \<not> some_included (modalities m) (modalities_sel f) then False
      else if tasks_sel f \<noteq> [] \<and> \<not> some_included (tasks m) (tasks_sel f) then False
      else if evidenceTypes f \<noteq> [] \<and> \<not> includes_opt (evidenceTypes f) (evidence_type m) then False
      else if maturityLevels f \<noteq> [] \<and> \<not> includes_opt (maturityLevels f) (maturity m) then False
      else if below_min (yearRange f) (year_of m) then False
      else if above_max (yearRange f) (year_of m) then False
      else True)"

definition filterMethods :: "method_entry list \<Rightarrow> filter_state \<Rightarrow> method_entry list" where
  "filterMethods ms f = filter (keep_method f) ms"

definition applyFiltersAndSearch :: "method_entry list \<Rightarrow> search_index \<Rightarrow> filter_state \<Rightarrow> method_entry list" where
  "applyFiltersAndSearch ms idx f =
     (let result =
        (if searchQuery f \<noteq> [] \<and> 2 \<le> length (trim (searchQuery f))
         then (case searchMethods idx (searchQuery f) of
                 Some searchResults \<Rightarrow> searchResults
               | None \<Rightarrow> ms)
         else ms)
      in filterMethods result f)"

section \<open>Sorting\<close>

text \<open>
  \<^verbatim>\<open>Array.prototype.sort\<close> with a comparison function is a stable sort (ECMAScript 2019):
  an element goes before another when the comparison function is negative, and elements
  that compare as equal stay in their order.  The model is the stable insertion sort:
  each element, from the last to the first, is put in front of the first element that it
  does not follow.  ECMAScript fixes the order only where the comparison function is
  consistent on the elements of the array; elsewhere the order is left to the
  implementation, and the insertion order is one of the orders it may take.
\<close>

fun insert_by :: "('a \<Rightarrow> 'a \<Rightarrow> rat) \<Rightarrow> 'a \<Rightarrow> 'a list \<Rightarrow> 'a list" where
  "insert_by c x [] = [x]"
| "insert_by c x (y # ys) = (if c x y \<le> 0 then x # y # ys else y # insert_by c x ys)"

definition js_sort :: "('a \<Rightarrow> 'a \<Rightarrow> rat) \<Rightarrow> 'a list \<Rightarrow> 'a list" where
  "js_sort c xs = foldr (insert_by c) xs []"


subsection \<open>Numbers and object literals\<close>

text \<open>A JavaScript number as far as the code needs it: a rational or NaN.\<close>

datatype js_num = Num rat | NaN

definition js_sub :: "js_num \<Rightarrow> js_num \<Rightarrow> js_num" where
  "js_sub x y =
     (case x of NaN \<Rightarrow> NaN | Num a \<Rightarrow> (case y of NaN \<Rightarrow> NaN | Num b \<Rightarrow> Num (a - b)))"

definition js_neg :: "js_num \<Rightarrow> js_num" where
  "js_neg x = (case x of NaN \<Rightarrow> NaN | Num a \<Rightarrow> Num (- a))"

text \<open>Division by one of the non-zero maxima of the radar axes.\<close>

definition js_div :: "js_num \<Rightarrow> rat \<Rightarrow> js_num" where
  "js_div x d = (case x of NaN \<Rightarrow> NaN | Num a \<Rightarrow> Num (a / d))"

text \<open>
  The rank tables are object literals, and \<^verbatim>\<open>TABLE[key]\<close> also finds the properties
  that every object inherits from \<^verbatim>\<open>Object.prototype\<close>.  Their values are functions
  (an object for \<^verbatim>\<open>__proto__\<close>): not nullish, truthy, and NaN as the operand of \<^verbatim>\<open>-\<close>
  or \<^verbatim>\<open>/\<close>.  A key that is missing or \<^verbatim>\<open>null\<close> reads the property \<^verbatim>\<open>"undefined"\<close> or
  \<^verbatim>\<open>"null"\<close>, which no table has.
\<close>

definition Object_prototype_keys :: "string list" where
  "Object_prototype_keys =
     [''constructor'', ''hasOwnProperty'', ''isPrototypeOf'', ''propertyIsEnumerable'',
      ''toLocaleString'', ''toString'', ''valueOf'', ''__proto__'',
      ''__defineGetter__'', ''__defineSetter__'', ''__lookupGetter__'', ''__lookupSetter__'']"

datatype 'a js_prop = Own 'a | Inherited | Absent

definition js_lookup :: "(string \<times> 'a) list \<Rightarrow> string option \<Rightarrow> 'a js_prop" where
  "js_lookup table k =
     (case k of
        None \<Rightarrow> Absent
      | Some key \<Rightarrow>
          (case map_of table key of
             Some v \<Rightarrow> Own v
           | None \<Rightarrow> if key \<in> set Object_prototype_keys then Inherited else Absent))"

definition maturityOrder :: "(string \<times> int) list" where
  "maturityOrder = [(''research'', 0), (''emerging'', 1), (''established'', 2), (''mature'', 3)]"

text \<open>\<^verbatim>\<open>a.references?.year || 0\<close>\<close>

definition year_or_0 :: "method_entry \<Rightarrow> int" where
  "year_or_0 a = (case year_of a of Missing \<Rightarrow> 0 | Null \<Rightarrow> 0 | Year y \<Rightarrow> y)"

text \<open>
  \<^verbatim>\<open>maturityOrder[a.maturity] || 0\<close>, as an operand of the subtraction: an inherited
  property is truthy, so it stays, and it is NaN in the subtraction.
\<close>

definition maturity_or_0 :: "method_entry \<Rightarrow> js_num" where
  "maturity_or_0 a =
     (case js_lookup maturityOrder (maturity a) of
        Own v \<Rightarrow> Num (of_int v)
      | Inherited \<Rightarrow> NaN
      | Absent \<Rightarrow> Num 0)"

text \<open>\<^verbatim>\<open>a.searchScore || 1\<close>: a missing score and the score \<open>0\<close> are both falsy.\<close>

definition score_or_1 :: "method_entry \<Rightarrow> rat" where
  "score_or_1 a = (case searchScore a of None \<Rightarrow> 1 | Some v \<Rightarrow> if v = 0 then 1 else v)"

text \<open>
  The \<^verbatim>\<open>switch\<close> of the comparison function of \<open>sortMethods\<close>: the value of its variable
  \<^verbatim>\<open>comparison\<close>.  \<^verbatim>\<open>String.prototype.localeCompare\<close> belongs to the platform; it is
  the parameter \<open>lc\<close>.
\<close>

definition comparison :: "(string \<Rightarrow> string \<Rightarrow> int) \<Rightarrow> string \<Rightarrow> method_entry \<Rightarrow> method_entry \<Rightarrow> js_num" where
  "comparison lc sortKey a b =
     (if sortKey = ''name'' then Num (of_int (lc (name a) (name b)))
      else if sortKey = ''year'' then Num (of_int (year_or_0 a - year_or_0 b))
      else if sortKey = ''maturity'' then js_sub (maturity_or_0 a) (maturity_or_0 b)
      else if sortKey = ''pipeline_step'' then Num (of_int (lc (pipeline_step a) (pipeline_step b)))
      else if sortKey = ''searchScore'' then Num (score_or_1 a - score_or_1 b)
      else Num 0)"

text \<open>What the comparison function returns: \<^verbatim>\<open>order === 'desc' ? -comparison : comparison\<close>.\<close>

definition compare_fn :: "(string \<Rightarrow> string \<Rightarrow> int) \<Rightarrow> string \<Rightarrow> string \<Rightarrow> method_entry \<Rightarrow> method_entry \<Rightarrow> js_num" where
  "compare_fn lc sortKey ord a b =
     (if ord = ''desc'' then js_neg (comparison lc sortKey a b) else comparison lc sortKey a b)"

text \<open>
  The comparison function as \<^verbatim>\<open>Array.prototype.sort\<close> reads it: a result that is NaN
  counts as \<open>+0\<close>.
\<close>

definition comparator :: "(string \<Rightarrow> string \<Rightarrow> int) \<Rightarrow> string \<Rightarrow> string \<Rightarrow> method_entry \<Rightarrow> method_entry \<Rightarrow> rat" where
  "comparator lc sortKey ord a b =
     (case compare_fn lc sortKey ord a b of NaN \<Rightarrow> 0 | Num v \<Rightarrow> v)"

text \<open>The array that \<open>sortMethods\<close> returns, as a value.\<close>

definition sortMethods :: "(string \<Rightarrow> string \<Rightarrow> int) \<Rightarrow> method_entry list \<Rightarrow> string \<Rightarrow> string \<Rightarrow> method_entry list" where
  "sortMethods lc ms sortKey ord = js_sort (comparator lc sortKey ord) ms"

subsection \<open>Arrays in a store\<close>

text \<open>
  \<^verbatim>\<open>sort\<close> reorders its array in place, and \<open>sortMethods\<close> calls it on a copy
  (\<^verbatim>\<open>[...methods]\<close>).  To say what happens to the caller's array, arrays live in a store:
  a reference is a number, and \<open>next_ref\<close> is the first reference that is not in use.
  Reading a reference that holds no array fails.
\<close>

record store =
  cells :: "nat \<Rightarrow> method_entry list option"
  next_ref :: nat

definition spread_copy :: "store \<Rightarrow> nat \<Rightarrow> (store \<times> nat) option" where
  "spread_copy st r =
     (case cells st r of
        None \<Rightarrow> None
      | Some xs \<Rightarrow>
          Some (st\<lparr> cells := (cells st)(next_ref st \<mapsto> xs), next_ref := Suc (next_ref st) \<rparr>,
                next_ref st))"

definition sort_in_place :: "(method_entry \<Rightarrow> method_entry \<Rightarrow> rat) \<Rightarrow> store \<Rightarrow> nat \<Rightarrow> store option" where
  "sort_in_place c st r =
     (case cells st r of
        None \<Rightarrow> None
      | Some xs \<Rightarrow> Some (st\<lparr> cells := (cells st)(r \<mapsto> js_sort c xs) \<rparr>))"

definition sortMethods_st ::
  "(string \<Rightarrow> string \<Rightarrow> int) \<Rightarrow> store \<Rightarrow> nat \<Rightarrow> string \<Rightarrow> string \<Rightarrow> (store \<times> nat) option" where
  "sortMethods_st lc st ms sortKey ord =
     (case spread_copy st ms of
        None \<Rightarrow> None
      | Some (st1, sorted_ref) \<Rightarrow>
          (case sort_in_place (comparator lc sortKey ord) st1 sorted_ref of
             None \<Rightarrow> None
           | Some st2 \<Rightarrow> Some (st2, sorted_ref)))"

text \<open>
  What ECMAScript asks of a comparison function for the order of the result to be
  defined: the two directions agree, and "not after" is transitive.
\<close>

definition consistent_compare :: "(string \<Rightarrow> string \<Rightarrow> int) \<Rightarrow> bool" where
  "consistent_compare lc =
     ((\<forall>a b. (lc a b < 0) = (0 < lc b a)) \<and>
      (\<forall>a b c. lc a b \<le> 0 \<longrightarrow> lc b c \<le> 0 \<longrightarrow> lc a c \<le> 0))"

text \<open>A comparison of strings by their code units, as an instance of \<open>lc\<close>.\<close>

fun code_unit_compare :: "string \<Rightarrow> string \<Rightarrow> int" where
  "code_unit_compare [] [] = 0"
| "code_unit_compare [] (y # ys) = - 1"
| "code_unit_compare (x # xs) [] = 1"
| "code_unit_compare (x # xs) (y # ys) =
     (if (of_char x :: nat) < of_char y then - 1
      else if (of_char y :: nat) < of_char x then 1
      else code_unit_compare xs ys)"

section \<open>Comparison radar chart\<close>

definition MATURITY_ORDER :: "(string \<times> rat) list" where
  "MATURITY_ORDER = [(''research'', 0), (''emerging'', 1), (''established'', 2), (''mature'', 3)]"

definition AUTOMATION_ORDER :: "(string \<times> rat) list" where
  "AUTOMATION_ORDER = [(''manual'', 0), (''semi-automated'', 1), (''automated'', 2)]"

text \<open>The keys and the maxima of the six axes (the labels play no part in the values).\<close>

definition dimensions :: "(string \<times> rat) list" where
  "dimensions =
     [(''maturity'', 3), (''automation'', 2), (''modalities'', 6), (''tasks'', 10),
      (''inputs'', 5), (''outputs'', 5)]"

text \<open>
  \<^verbatim>\<open>TABLE[key] ?? 1\<close>, as the operand of the division: an inherited property is not
  nullish, so it stays, and it is NaN in the division.
\<close>

definition rank_or_1 :: "(string \<times> rat) list \<Rightarrow> string option \<Rightarrow> js_num" where
  "rank_or_1 table k =
     (case js_lookup table k of Own v \<Rightarrow> Num v | Inherited \<Rightarrow> NaN | Absent \<Rightarrow> Num 1)"

text \<open>\<^verbatim>\<open>arr?.length || 1\<close>: a missing array and an empty one both count as one.\<close>

definition length_or_1 :: "string list option \<Rightarrow> rat" where
  "length_or_1 arr =
     (case arr of None \<Rightarrow> 1 | Some xs \<Rightarrow> if length xs = 0 then 1 else of_nat (length xs))"

definition radar_value :: "method_entry \<Rightarrow> string \<times> rat \<Rightarrow> js_num" where
  "radar_value m axis =
     (let key = fst axis; dmax = snd axis in
      if key = ''maturity'' then js_div (rank_or_1 MATURITY_ORDER (maturity m)) dmax
      else if key = ''automation'' then js_div (rank_or_1 AUTOMATION_ORDER (automation_level m)) dmax
      else if key = ''modalities'' then Num (min (length_or_1 (modalities m)) dmax / dmax)
      else if key = ''tasks'' then Num (min (length_or_1 (tasks m)) dmax / dmax)
      else if key = ''inputs'' then Num (min (length_or_1 (inputs m)) dmax / dmax)
      else if key = ''outputs'' then Num (min (length_or_1 (outputs m)) dmax / dmax)
      else Num (1 / 2))"

definition radar_values :: "method_entry \<Rightarrow> js_num list" where
  "radar_values m = map (radar_value m) dimensions"

text \<open>
  The count-based normalisation as the specification words it, for comparison with
  \<open>radar_values\<close>: the count of the list capped at the maximum, over the maximum.
\<close>

definition spec_count :: "string list option \<Rightarrow> rat" where
  "spec_count arr = (case arr of None \<Rightarrow> 0 | Some xs \<Rightarrow> of_nat (length xs))"

definition spec_count_value :: "string list option \<Rightarrow> rat \<Rightarrow> rat" where
  "spec_count_value arr cap = min (spec_count arr) cap / cap"

text \<open>
  The same with the floor that the code has: a list that is missing or empty counts as
  one element.
\<close>

definition floored_count :: "string list option \<Rightarrow> rat \<Rightarrow> rat" where
  "floored_count arr cap = min (max (spec_count arr) 1) cap / cap"

text \<open>A number of the interval [0,1]; NaN is none.\<close>

definition in_unit_interval :: "js_num \<Rightarrow> bool" where
  "in_unit_interval v = (case v of NaN \<Rightarrow> False | Num r \<Rightarrow> 0 \<le> r \<and> r \<le> 1)"

text \<open>A level that names no inherited property.\<close>

definition plain_level :: "string option \<Rightarrow> bool" where
  "plain_level k = (case k of None \<Rightarrow> True | Some key \<Rightarrow> key \<notin> set Object_prototype_keys)"

section \<open>Application state and reducer\<close>

record dataset =
  pipeline_steps :: "(string \<times> string \<times> int) list"
  methods :: "method_entry list"

record app_state =
  data :: "dataset option"
  loading :: bool
  error :: "string option"
  validationErrors :: "string list"
  filters :: filter_state
  selectedStep :: "string option"
  selectedModality :: "string option"
  selectedMethodId :: "string option"
  hoveredMethodId :: "string option"
  compareMethodIds :: "string list"
  isCompareMode :: bool
  showFilters :: bool
  sortBy :: string
  sortOrder :: string
  searchIndex :: "search_index option"

definition initialState :: app_state where
  "initialState =
     \<lparr> data = None, loading = True, error = None, validationErrors = [],
       filters = FILTER_DEFAULTS,
       selectedStep = None, selectedModality = None, selectedMethodId = None,
       hoveredMethodId = None, compareMethodIds = [], isCompareMode = False,
       showFilters = False, sortBy = ''name'', sortOrder = ''asc'',
       searchIndex = None \<rparr>"

text \<open>
  The payload of \<^verbatim>\<open>SET_FILTERS\<close> is a partial filter object: a field that it does not
  have is \<open>None\<close>, and the spread \<^verbatim>\<open>{ ...state.filters, ...action.payload }\<close> keeps the
  old value there.
\<close>

record filters_patch =
  p_pipelineStep :: "string option option"
  p_modalities :: "string list option"
  p_tasks :: "string list option"
  p_evidenceTypes :: "string list option"
  p_maturityLevels :: "string list option"
  p_yearRange :: "year_range option"
  p_searchQuery :: "code_units option"

definition or_else :: "'a option \<Rightarrow> 'a \<Rightarrow> 'a" where
  "or_else p old = (case p of None \<Rightarrow> old | Some v \<Rightarrow> v)"

definition merge_filters :: "filter_state \<Rightarrow> filters_patch \<Rightarrow> filter_state" where
  "merge_filters f p =
     \<lparr> pipelineStep = or_else (p_pipelineStep p) (pipelineStep f),
       modalities_sel = or_else (p_modalities p) (modalities_sel f),
       tasks_sel = or_else (p_tasks p) (tasks_sel f),
       evidenceTypes = or_else (p_evidenceTypes p) (evidenceTypes f),
       maturityLevels = or_else (p_maturityLevels p) (maturityLevels f),
       yearRange = or_else (p_yearRange p) (yearRange f),
       searchQuery = or_else (p_searchQuery p) (searchQuery f) \<rparr>"

datatype action =
    SET_DATA dataset
  | SET_ERROR string
  | SET_LOADING bool
  | SET_VALIDATION_ERRORS "string list"
  | SET_FILTERS filters_patch
  | RESET_FILTERS
  | SET_SELECTED_STEP "string option"
  | SET_SELECTED_MODALITY "string option"
  | SET_SELECTED_METHOD "string option"
  | SET_HOVERED_METHOD "string option"
  | TOGGLE_COMPARE_METHOD string
  | CLEAR_COMPARE
  | SET_COMPARE_MODE bool
  | TOGGLE_FILTERS
  | SET_SORT string string
  | SET_SEARCH_INDEX search_index
  | UNKNOWN_ACTION

text \<open>\<^verbatim>\<open>action.payload ? [action.payload] : []\<close>\<close>

definition singleton_if_truthy :: "string option \<Rightarrow> string list" where
  "singleton_if_truthy p = (case p of None \<Rightarrow> [] | Some v \<Rightarrow> if v = [] then [] else [v])"

fun appReducer :: "app_state \<Rightarrow> action \<Rightarrow> app_state" where
  "appReducer s (SET_DATA payload) = s\<lparr> data := Some payload, loading := False, error := None \<rparr>"
| "appReducer s (SET_ERROR payload) = s\<lparr> error := Some payload, loading := False \<rparr>"
| "appReducer s (SET_LOADING payload) = s\<lparr> loading := payload \<rparr>"
| "appReducer s (SET_VALIDATION_ERRORS payload) = s\<lparr> validationErrors := payload \<rparr>"
| "appReducer s (SET_FILTERS payload) = s\<lparr> filters := merge_filters (filters s) payload \<rparr>"
| "appReducer s RESET_FILTERS =
     s\<lparr> filters := FILTER_DEFAULTS, selectedStep := None, selectedModality := None \<rparr>"
| "appReducer s (SET_SELECTED_STEP payload) =
     s\<lparr> selectedStep := payload,
        selectedModality := None,
        filters := (filters s)\<lparr> pipelineStep := payload, modalities_sel := [] \<rparr> \<rparr>"
| "appReducer s (SET_SELECTED_MODALITY payload) =
     s\<lparr> selectedStep := Some ''collect'',
        selectedModality := payload,
        filters := (filters s)\<lparr> pipelineStep := Some ''collect'',
                                modalities_sel := singleton_if_truthy payload \<rparr> \<rparr>"
| "appReducer s (SET_SELECTED_METHOD payload) = s\<lparr> selectedMethodId := payload \<rparr>"
| "appReducer s (SET_HOVERED_METHOD payload) = s\<lparr> hoveredMethodId := payload \<rparr>"
| "appReducer s (TOGGLE_COMPARE_METHOD methodId) =
     (let current = compareMethodIds s;
          updated =
            (if methodId \<in> set current then filter (\<lambda>i. i \<noteq> methodId) current
             else if length current < 3 then current @ [methodId]
             else current)
      in s\<lparr> compareMethodIds := updated \<rparr>)"
| "appReducer s CLEAR_COMPARE = s\<lparr> compareMethodIds := [], isCompareMode := False \<rparr>"
| "appReducer s (SET_COMPARE_MODE payload) = s\<lparr> isCompareMode := payload \<rparr>"
| "appReducer s TOGGLE_FILTERS = s\<lparr> showFilters := \<not> showFilters s \<rparr>"
| "appReducer s (SET_SORT newSortBy newOrder) = s\<lparr> sortBy := newSortBy, sortOrder := newOrder \<rparr>"
| "appReducer s (SET_SEARCH_INDEX payload) = s\<lparr> searchIndex := Some payload \<rparr>"
| "appReducer s UNKNOWN_ACTION = s"

subsection \<open>Action creators\<close>

definition setSelectedStep :: "string option \<Rightarrow> action" where
  "setSelectedStep stepId = SET_SELECTED_STEP stepId"

definition setSelectedModality :: "string option \<Rightarrow> action" where
  "setSelectedModality modalityId = SET_SELECTED_MODALITY modalityId"

definition toggleCompareMethod :: "string \<Rightarrow> action" where
  "toggleCompareMethod methodId = TOGGLE_COMPARE_METHOD methodId"

text \<open>The state after a sequence of dispatched actions.\<close>

definition dispatch_all :: "app_state \<Rightarrow> action list \<Rightarrow> app_state" where
  "dispatch_all s acts = foldl appReducer s acts"

section \<open>The filter categories, one by one\<close>

text \<open>
  Each category of the filter as a predicate of its own, to compare their conjunction
  with \<open>filterMethods\<close>.  A category whose selector is empty holds for every method.
\<close>

definition stage_ok :: "filter_state \<Rightarrow> method_entry \<Rightarrow> bool" where
  "stage_ok f m = (\<not> truthy_str (pipelineStep f) \<or> pipelineStep f = Some (pipeline_step m))"

definition modality_ok :: "filter_state \<Rightarrow> method_entry \<Rightarrow> bool" where
  "modality_ok f m =
     (modalities_sel f = [] \<or>
      (case modalities m of None \<Rightarrow> False | Some xs \<Rightarrow> set xs \<inter> set (modalities_sel f) \<noteq> {}))"

definition task_ok :: "filter_state \<Rightarrow> method_entry \<Rightarrow> bool" where
  "task_ok f m =
     (tasks_sel f = [] \<or>
      (case tasks m of None \<Rightarrow> False | Some xs \<Rightarrow> set xs \<inter> set (tasks_sel f) \<noteq> {}))"

definition evidence_ok :: "filter_state \<Rightarrow> method_entry \<Rightarrow> bool" where
  "evidence_ok f m =
     (evidenceTypes f = [] \<or>
      (case evidence_type m of None \<Rightarrow> False | Some e \<Rightarrow> e \<in> set (evidenceTypes f)))"

definition maturity_ok :: "filter_state \<Rightarrow> method_entry \<Rightarrow> bool" where
  "maturity_ok f m =
     (maturityLevels f = [] \<or>
      (case maturity m of None \<Rightarrow> False | Some l \<Rightarrow> l \<in> set (maturityLevels f)))"

text \<open>
  The year category as the specification words it: within the bounds that are set,
  both inclusive, and a method without a year fails a bound that is set.
\<close>

definition spec_year_ok :: "filter_state \<Rightarrow> method_entry \<Rightarrow> bool" where
  "spec_year_ok f m =
     ((case yr_min (yearRange f) of
         None \<Rightarrow> True
       | Some lo \<Rightarrow> (case year_of m of Year y \<Rightarrow> lo \<le> y | _ \<Rightarrow> False)) \<and>
      (case yr_max (yearRange f) of
         None \<Rightarrow> True
       | Some hi \<Rightarrow> (case year_of m of Year y \<Rightarrow> y \<le> hi | _ \<Rightarrow> False)))"

definition spec_satisfies :: "filter_state \<Rightarrow> method_entry \<Rightarrow> bool" where
  "spec_satisfies f m =
     (stage_ok f m \<and> modality_ok f m \<and> task_ok f m \<and> evidence_ok f m \<and> maturity_ok f m \<and>
      spec_year_ok f m)"

section \<open>Example data\<close>

definition alpha :: method_entry where
  "alpha =
     \<lparr> method_id = ''m-alpha'', name = ''Alpha'', pipeline_step = ''collect'',
       modalities = Some [''text''], tasks = Some [''cleaning''],
       inputs = Some [''documents''], outputs = Some [''events''],
       evidence_type = Some ''case-study'', maturity = Some ''research'',
       automation_level = Some ''manual'',
       references = Some \<lparr> year = Year 2015, paper_title = ''On Alpha'' \<rparr>,
       searchScore = None, searchMatches = None \<rparr>"

text \<open>
  The same method with a reference block that has no year, and with one whose year is
  \<^verbatim>\<open>null\<close>.
\<close>

definition undated :: method_entry where
  "undated = alpha\<lparr> method_id := ''m-undated'', name := ''Undated'',
                    references := Some \<lparr> year = Missing, paper_title = ''No Date'' \<rparr> \<rparr>"

definition null_dated :: method_entry where
  "null_dated = alpha\<lparr> method_id := ''m-null-dated'', name := ''Null Dated'',
                       references := Some \<lparr> year = Null, paper_title = ''Null Date'' \<rparr> \<rparr>"

definition beta :: method_entry where
  "beta = alpha\<lparr> method_id := ''m-beta'', name := ''Beta'', pipeline_step := ''preprocess'',
                 modalities := Some [''image''], maturity := Some ''mature'',
                 references := Some \<lparr> year = Year 2020, paper_title = ''On Beta'' \<rparr> \<rparr>"

text \<open>
  A method of maturity \<^verbatim>\<open>'emerging'\<close>, and one whose maturity string is the name of a
  property that every object inherits.
\<close>

definition emerging_one :: method_entry where
  "emerging_one = alpha\<lparr> method_id := ''m-emerging'', name := ''Emerging'',
                         maturity := Some ''emerging'' \<rparr>"

definition odd_level :: method_entry where
  "odd_level = alpha\<lparr> method_id := ''m-odd'', name := ''Odd'', maturity := Some ''toString'' \<rparr>"

text \<open>A method of the same year as \<open>alpha\<close> that lists no task.\<close>

definition taskless :: method_entry where
  "taskless = alpha\<lparr> method_id := ''m-taskless'', name := ''Taskless'', tasks := Some [] \<rparr>"

text \<open>Two search hits: a perfect match (score \<open>0\<close>) and a weak one (score \<open>2/5\<close>).\<close>

definition perfect_hit :: method_entry where
  "perfect_hit = alpha\<lparr> searchScore := Some 0, searchMatches := Some [] \<rparr>"

definition weak_hit :: method_entry where
  "weak_hit = beta\<lparr> searchScore := Some (2 / 5), searchMatches := Some [] \<rparr>"

text \<open>A store that holds one array, at reference \<open>0\<close>.\<close>

definition one_array :: store where
  "one_array = \<lparr> cells = (\<lambda>r. if r = 0 then Some [beta, alpha, taskless] else None),
                 next_ref = 1 \<rparr>"

text \<open>A state in which three methods are marked for comparison.\<close>

definition three_marked :: app_state where
  "three_marked = initialState\<lparr> compareMethodIds := [''m-alpha'', ''m-beta'', ''m-undated''] \<rparr>"

definition from_2015 :: filter_state where
  "from_2015 = FILTER_DEFAULTS\<lparr> yearRange := \<lparr> yr_min = Some 2015, yr_max = None \<rparr> \<rparr>"

definition until_2020 :: filter_state where
  "until_2020 = FILTER_DEFAULTS\<lparr> yearRange := \<lparr> yr_min = None, yr_max = Some 2020 \<rparr> \<rparr>"

definition years_2015_2020 :: filter_state where
  "years_2015_2020 = FILTER_DEFAULTS\<lparr> yearRange := \<lparr> yr_min = Some 2015, yr_max = Some 2020 \<rparr> \<rparr>"

definition no_hits :: search_index where
  "no_hits q = []"

section \<open>Properties of filtering and search\<close>

lemma trim_Nil: "trim [] = []"
  by (simp add: trim_def)

lemma some_included_iff:
  "some_included arr sel = (case arr of None \<Rightarrow> False | Some xs \<Rightarrow> set xs \<inter> set sel \<noteq> {})"
  by (auto simp add: some_included_def list_ex_iff split: option.splits)

lemma includes_opt_iff:
  "includes_opt sel v = (case v of None \<Rightarrow> False | Some x \<Rightarrow> x \<in> set sel)"
  by (simp add: includes_opt_def)

lemma example_years:
  "year_of alpha = Year 2015" "year_of undated = Missing" "year_of null_dated = Null"
  "year_of beta = Year 2020"
  by (simp_all add: year_of_def alpha_def undated_def null_dated_def beta_def)

subsection \<open>Methods that have a year\<close>

text \<open>
  For a method whose year is a number, and bounds other than \<open>0\<close>, the two year tests of
  the code are the year category of the specification.
\<close>

lemma year_tests_spec_year_ok:
  assumes "year_of m = Year y"
    and "yr_min (yearRange f) \<noteq> Some 0" and "yr_max (yearRange f) \<noteq> Some 0"
  shows "(\<not> below_min (yearRange f) (year_of m) \<and> \<not> above_max (yearRange f) (year_of m)) =
         spec_year_ok f m"
  using assms unfolding spec_year_ok_def below_min_def above_max_def js_lt_def js_gt_def
  by (cases "yr_min (yearRange f)"; cases "yr_max (yearRange f)"; simp; linarith?)

text \<open>The chain of early returns is then the conjunction of the categories.\<close>

lemma keep_method_spec_satisfies:
  assumes "year_of m = Year y"
    and "yr_min (yearRange f) \<noteq> Some 0" and "yr_max (yearRange f) \<noteq> Some 0"
  shows "keep_method f m = spec_satisfies f m"
  unfolding keep_method_def spec_satisfies_def stage_ok_def modality_ok_def task_ok_def
    evidence_ok_def maturity_ok_def some_included_iff includes_opt_iff
    year_tests_spec_year_ok [OF assms, symmetric]
  by argo

lemma conjunction_law_dated:
  assumes "searchQuery f = []"
    and dated: "\<And>m. m \<in> set ms \<Longrightarrow> \<exists>y. year_of m = Year y"
    and "yr_min (yearRange f) \<noteq> Some 0" and "yr_max (yearRange f) \<noteq> Some 0"
  shows "applyFiltersAndSearch ms idx f = filter (spec_satisfies f) ms"
proof -
  have "applyFiltersAndSearch ms idx f = filter (keep_method f) ms"
    using assms(1) by (simp add: applyFiltersAndSearch_def filterMethods_def)
  also have "\<dots> = filter (spec_satisfies f) ms"
  proof (rule filter_cong [OF refl])
    fix m
    assume "m \<in> set ms"
    then obtain y where "year_of m = Year y"
      using dated by blast
    then show "keep_method f m = spec_satisfies f m"
      using assms(3,4) by (rule keep_method_spec_satisfies)
  qed
  finally show ?thesis .
qed

text \<open>
  The year range is inclusive at both bounds: a method whose year is equal to a bound
  passes both year tests, when the bounds are in order.
\<close>

lemma year_bounds_inclusive:
  assumes "year_of m = Year y"
    and "yr_min r = Some y \<or> yr_max r = Some y"
    and "\<forall>lo hi. yr_min r = Some lo \<and> yr_max r = Some hi \<longrightarrow> lo \<le> hi"
  shows "\<not> below_min r (year_of m) \<and> \<not> above_max r (year_of m)"
proof -
  have "\<not> below_min r (Year y)"
  proof (cases "yr_min r")
    case None
    then show ?thesis by (simp add: below_min_def)
  next
    case (Some lo)
    with assms(2,3) have "lo \<le> y" by auto
    with Some show ?thesis by (simp add: below_min_def js_lt_def)
  qed
  moreover have "\<not> above_max r (Year y)"
  proof (cases "yr_max r")
    case None
    then show ?thesis by (simp add: above_max_def)
  next
    case (Some hi)
    with assms(2,3) have "y \<le> hi" by auto
    with Some show ?thesis by (simp add: above_max_def js_gt_def)
  qed
  ultimately show ?thesis
    by (simp add: assms(1))
qed

text \<open>
  A year that is \<^verbatim>\<open>null\<close> compares as \<open>0\<close>: the method is dropped under the lower bound
  2015 and kept under the upper bound 2020.
\<close>

lemma null_year_compares_as_zero:
  "filterMethods [null_dated] from_2015 = [] \<and>
   filterMethods [null_dated] until_2020 = [null_dated]"
  by (simp add: from_2015_def until_2020_def FILTER_DEFAULTS_def filterMethods_def
      keep_method_def truthy_str_def below_min_def above_max_def js_lt_def js_gt_def
      year_of_def null_dated_def alpha_def)

text \<open>
  With the range 2015 to 2020, the method of 2015 and the method of 2020 are kept; the
  method without a year is kept too.
\<close>

lemma year_range_example:
  "filterMethods [alpha, undated, beta] years_2015_2020 = [alpha, undated, beta]"
  by (simp add: years_2015_2020_def FILTER_DEFAULTS_def filterMethods_def
      keep_method_def truthy_str_def below_min_def above_max_def js_lt_def js_gt_def
      year_of_def undated_def beta_def alpha_def)

subsection \<open>Methods that have no year\<close>

text \<open>
  C1 says that the year range excludes a method without \<^verbatim>\<open>references.year\<close> whenever a
  bound is set.  The code does not: with the lower bound 2015 set, the method whose
  reference block has no year is kept by \<open>filterMethods\<close> and by \<open>applyFiltersAndSearch\<close>
  (the comparison of a missing year with the bound is false), and with the upper bound
  2020 set so are that method and the one whose year is \<^verbatim>\<open>null\<close>.
\<close>

theorem undated_method_kept_under_bound:
  "yr_min (yearRange from_2015) = Some 2015 \<and> year_of undated = Missing \<and>
   filterMethods [undated] from_2015 = [undated] \<and>
   applyFiltersAndSearch [undated] no_hits from_2015 = [undated] \<and>
   yr_max (yearRange until_2020) = Some 2020 \<and> year_of null_dated = Null \<and>
   filterMethods [undated, null_dated] until_2020 = [undated, null_dated]"
  by (simp add: from_2015_def until_2020_def FILTER_DEFAULTS_def applyFiltersAndSearch_def
      filterMethods_def keep_method_def truthy_str_def below_min_def above_max_def
      js_lt_def js_gt_def year_of_def undated_def null_dated_def alpha_def)

text \<open>
  C4 says that, with an empty search query, a method is in the result of
  \<open>applyFiltersAndSearch\<close> if and only if it satisfies every category whose selector is
  not empty.  The code breaks this for the year category: the method without a year is
  in the result for the filter with lower bound 2015, and it does not satisfy "year in
  range".
\<close>

theorem conjunction_law_fails_for_undated:
  "searchQuery from_2015 = [] \<and>
   undated \<in> set (applyFiltersAndSearch [undated] no_hits from_2015) \<and>
   \<not> spec_year_ok from_2015 undated \<and>
   \<not> spec_satisfies from_2015 undated"
  by (simp add: from_2015_def FILTER_DEFAULTS_def applyFiltersAndSearch_def filterMethods_def
      keep_method_def truthy_str_def below_min_def above_max_def js_lt_def js_gt_def
      year_of_def undated_def alpha_def spec_satisfies_def spec_year_ok_def)

subsection \<open>Empty filters and short queries\<close>

text \<open>
  C5: for a filter whose stage selector is \<^verbatim>\<open>null\<close>, whose selector lists are empty,
  whose year bounds are \<^verbatim>\<open>null\<close> and whose query is empty, \<open>applyFiltersAndSearch\<close>
  returns its input list: the same methods in the same order.
\<close>

theorem empty_filter_returns_input:
  "pipelineStep f = None \<Longrightarrow> modalities_sel f = [] \<Longrightarrow> tasks_sel f = [] \<Longrightarrow>
   evidenceTypes f = [] \<Longrightarrow> maturityLevels f = [] \<Longrightarrow>
   yr_min (yearRange f) = None \<Longrightarrow> yr_max (yearRange f) = None \<Longrightarrow> searchQuery f = [] \<Longrightarrow>
   applyFiltersAndSearch ms idx f = ms"
  by (simp add: applyFiltersAndSearch_def filterMethods_def keep_method_def truthy_str_def
      below_min_def above_max_def)

theorem empty_filter_returns_input_witness:
  "applyFiltersAndSearch [alpha, undated, beta] no_hits FILTER_DEFAULTS = [alpha, undated, beta]"
  using empty_filter_returns_input [of FILTER_DEFAULTS "[alpha, undated, beta]" no_hits]
  by (simp add: FILTER_DEFAULTS_def)

text \<open>
  C9: for a query whose trimmed length is below 2, \<open>searchMethods\<close> returns \<^verbatim>\<open>null\<close> and
  \<open>applyFiltersAndSearch\<close> filters the full list; for a query of trimmed length at least 2
  that the index matches nowhere, \<open>searchMethods\<close> returns the empty list, which is not
  \<^verbatim>\<open>null\<close>, and the result of \<open>applyFiltersAndSearch\<close> is empty.
\<close>

theorem short_query_is_no_filter:
  "(length (trim q) < 2 \<longrightarrow>
      searchMethods idx q = None \<and>
      applyFiltersAndSearch ms idx (f\<lparr> searchQuery := q \<rparr>) =
        filterMethods ms (f\<lparr> searchQuery := q \<rparr>)) \<and>
   (2 \<le> length (trim q) \<and> idx (trim q) = [] \<longrightarrow>
      searchMethods idx q = Some [] \<and> searchMethods idx q \<noteq> None \<and>
      applyFiltersAndSearch ms idx (f\<lparr> searchQuery := q \<rparr>) = [])"
  by (auto simp add: searchMethods_def applyFiltersAndSearch_def filterMethods_def trim_Nil)

text \<open>
  The queries \<^verbatim>\<open>" a "\<close>, no-break space and \<^verbatim>\<open>"a"\<close>, ideographic space and \<^verbatim>\<open>"a"\<close>, and
  \<^verbatim>\<open>"abc"\<close>.
\<close>

theorem short_query_is_no_filter_witness:
  "length (trim [0x20, 0x61, 0x20]) < 2 \<and> searchMethods no_hits [0x20, 0x61, 0x20] = None \<and>
   length (trim [0xA0, 0x61]) < 2 \<and> searchMethods no_hits [0xA0, 0x61] = None \<and>
   length (trim [0x3000, 0x61]) < 2 \<and> searchMethods no_hits [0x3000, 0x61] = None \<and>
   2 \<le> length (trim [0x61, 0x62, 0x63]) \<and> no_hits (trim [0x61, 0x62, 0x63]) = [] \<and>
   searchMethods no_hits [0x61, 0x62, 0x63] = Some []"
proof -
  have a: "length (trim [0x20, 0x61, 0x20]) < 2"
    by (simp add: trim_def is_ws_def)
  have n: "length (trim [0xA0, 0x61]) < 2"
    by (simp add: trim_def is_ws_def)
  have i: "length (trim [0x3000, 0x61]) < 2"
    by (simp add: trim_def is_ws_def)
  have b: "2 \<le> length (trim [0x61, 0x62, 0x63]) \<and> no_hits (trim [0x61, 0x62, 0x63]) = []"
    by (simp add: trim_def is_ws_def no_hits_def)
  from short_query_is_no_filter [of "[0x20, 0x61, 0x20]" no_hits "[alpha]" FILTER_DEFAULTS] a
  have "searchMethods no_hits [0x20, 0x61, 0x20] = None" by blast
  moreover from short_query_is_no_filter [of "[0xA0, 0x61]" no_hits "[alpha]" FILTER_DEFAULTS] n
  have "searchMethods no_hits [0xA0, 0x61] = None" by blast
  moreover from short_query_is_no_filter [of "[0x3000, 0x61]" no_hits "[alpha]" FILTER_DEFAULTS] i
  have "searchMethods no_hits [0x3000, 0x61] = None" by blast
  moreover from short_query_is_no_filter [of "[0x61, 0x62, 0x63]" no_hits "[alpha]" FILTER_DEFAULTS] b
  have "searchMethods no_hits [0x61, 0x62, 0x63] = Some []" by blast
  ultimately show ?thesis using a n i b by simp
qed

section \<open>Properties of the reducer\<close>

text \<open>
  C2, as the specification states it, fails: dispatching \<open>setSelectedModality\<close> with
  \<^verbatim>\<open>null\<close> does not clear the stage; the selected step and the stage filter are
  \<^verbatim>\<open>'collect'\<close> afterwards.
\<close>

theorem null_modality_keeps_collect_stage:
  "selectedStep (appReducer initialState (setSelectedModality None)) = Some ''collect'' \<and>
   pipelineStep (filters (appReducer initialState (setSelectedModality None))) = Some ''collect''"
  by (simp add: setSelectedModality_def)

text \<open>
  C2 (amended): for every state, dispatching \<open>setSelectedModality\<close> sets the selected step
  and the stage filter to \<^verbatim>\<open>'collect'\<close>, whatever the argument, and stores the argument as
  the selected modality; with a non-empty modality id the modality selector becomes the
  singleton of that id, and with \<^verbatim>\<open>null\<close> the modality selector becomes empty.
\<close>

theorem set_selected_modality_forces_collect:
  "selectedStep (appReducer s (setSelectedModality p)) = Some ''collect'' \<and>
   pipelineStep (filters (appReducer s (setSelectedModality p))) = Some ''collect'' \<and>
   selectedModality (appReducer s (setSelectedModality p)) = p \<and>
   (\<forall>modalityId. p = Some modalityId \<and> modalityId \<noteq> [] \<longrightarrow>
      modalities_sel (filters (appReducer s (setSelectedModality p))) = [modalityId]) \<and>
   (p = None \<longrightarrow> modalities_sel (filters (appReducer s (setSelectedModality p))) = [])"
  by (simp add: setSelectedModality_def singleton_if_truthy_def)

theorem set_selected_modality_witness:
  "modalities_sel (filters (appReducer initialState (setSelectedModality (Some ''image'')))) = [''image''] \<and>
   modalities_sel (filters (appReducer three_marked (setSelectedModality None))) = []"
  using set_selected_modality_forces_collect [of initialState "Some ''image''"]
    set_selected_modality_forces_collect [of three_marked None]
  by simp

text \<open>
  C7: for every state, dispatching \<open>setSelectedStep stepId\<close> sets the selected step and
  the stage filter to \<open>stepId\<close> and clears the modality selector and the selected modality;
  \<open>setSelectedModality 'image'\<close> followed by \<open>setSelectedStep 'preprocess'\<close> gives the stage
  filter \<^verbatim>\<open>'preprocess'\<close> and an empty modality selector.
\<close>

theorem set_selected_step_clears_modality:
  "selectedStep (appReducer s (setSelectedStep stepId)) = stepId \<and>
   pipelineStep (filters (appReducer s (setSelectedStep stepId))) = stepId \<and>
   modalities_sel (filters (appReducer s (setSelectedStep stepId))) = [] \<and>
   selectedModality (appReducer s (setSelectedStep stepId)) = None \<and>
   pipelineStep (filters (dispatch_all s
      [setSelectedModality (Some ''image''), setSelectedStep (Some ''preprocess'')])) =
     Some ''preprocess'' \<and>
   modalities_sel (filters (dispatch_all s
      [setSelectedModality (Some ''image''), setSelectedStep (Some ''preprocess'')])) = []"
  by (simp add: setSelectedStep_def setSelectedModality_def dispatch_all_def)

theorem set_selected_step_witness:
  "modalities_sel (filters (dispatch_all initialState
      [setSelectedModality (Some ''image''), setSelectedStep (Some ''preprocess'')])) = [] \<and>
   selectedModality (appReducer initialState (setSelectedStep (Some ''preprocess''))) = None"
  using set_selected_step_clears_modality [of initialState "Some ''preprocess''"]
  by simp

subsection \<open>The compare set\<close>

lemma toggle_ids:
  "compareMethodIds (appReducer s (TOGGLE_COMPARE_METHOD i)) =
    (if i \<in> set (compareMethodIds s) then filter (\<lambda>j. j \<noteq> i) (compareMethodIds s)
     else if length (compareMethodIds s) < 3 then compareMethodIds s @ [i]
     else compareMethodIds s)"
  by (simp add: Let_def)

lemma toggle_inv:
  assumes "length xs \<le> 3" "distinct xs"
  shows "length (if i \<in> set xs then filter (\<lambda>j. j \<noteq> i) xs
                 else if length xs < 3 then xs @ [i] else xs) \<le> 3 \<and>
         distinct (if i \<in> set xs then filter (\<lambda>j. j \<noteq> i) xs
                   else if length xs < 3 then xs @ [i] else xs)"
proof -
  have "length (filter (\<lambda>j. j \<noteq> i) xs) \<le> 3"
    using assms(1) length_filter_le [of "\<lambda>j. j \<noteq> i" xs] by linarith
  then show ?thesis using assms by simp
qed

text \<open>Every action keeps the compare set duplicate-free and of size at most three.\<close>

lemma compare_inv_step:
  assumes "length (compareMethodIds s) \<le> 3 \<and> distinct (compareMethodIds s)"
  shows "length (compareMethodIds (appReducer s a)) \<le> 3 \<and>
         distinct (compareMethodIds (appReducer s a))"
proof (cases a)
  case (TOGGLE_COMPARE_METHOD i)
  from assms have "length (compareMethodIds s) \<le> 3" "distinct (compareMethodIds s)"
    by simp_all
  from toggle_inv [OF this, of i] show ?thesis
    unfolding TOGGLE_COMPARE_METHOD toggle_ids .
qed (use assms in simp_all)

lemma compare_inv_all:
  "length (compareMethodIds s) \<le> 3 \<and> distinct (compareMethodIds s) \<Longrightarrow>
   length (compareMethodIds (dispatch_all s acts)) \<le> 3 \<and>
   distinct (compareMethodIds (dispatch_all s acts))"
  unfolding dispatch_all_def
proof (induction acts arbitrary: s)
  case Nil
  then show ?case by simp
next
  case (Cons a acts)
  from compare_inv_step [OF Cons.prems, of a] show ?case
    by (simp add: Cons.IH)
qed

text \<open>From the initial state, no sequence of actions makes the compare set larger than three.\<close>

lemma compare_inv_reachable:
  "length (compareMethodIds (dispatch_all initialState acts)) \<le> 3"
  using compare_inv_all [of initialState acts] by (simp add: initialState_def)

lemma filter_absent: "i \<notin> set xs \<Longrightarrow> filter (\<lambda>j. j \<noteq> i) xs = xs"
  by (induction xs) auto

lemma remove_one:
  "distinct xs \<Longrightarrow> i \<in> set xs \<Longrightarrow> Suc (length (filter (\<lambda>j. j \<noteq> i) xs)) = length xs"
  by (induction xs) (auto simp add: filter_absent)

lemma toggle_full_noop:
  "i \<notin> set (compareMethodIds s) \<Longrightarrow> length (compareMethodIds s) = 3 \<Longrightarrow>
   appReducer s (TOGGLE_COMPARE_METHOD i) = s"
  by (simp add: Let_def)

text \<open>
  C6: in a state whose compare set has no duplicates and at most three ids (as in the
  initial state and in every state reached from it), every action leaves a compare set
  of at most three ids without duplicates, and so does every sequence of actions.
  \<open>toggleCompareMethod\<close> with an id of the set removes that id (the size goes down by
  one); with a new id and fewer than three ids it appends the id; with a new id and
  exactly three ids it leaves the state unchanged.
\<close>

theorem compare_set_at_most_three:
  "length (compareMethodIds s) \<le> 3 \<and> distinct (compareMethodIds s) \<Longrightarrow>
   length (compareMethodIds (appReducer s a)) \<le> 3 \<and>
   distinct (compareMethodIds (appReducer s a)) \<and>
   length (compareMethodIds (dispatch_all s acts)) \<le> 3 \<and>
   (i \<in> set (compareMethodIds s) \<longrightarrow>
      compareMethodIds (appReducer s (toggleCompareMethod i)) =
        filter (\<lambda>j. j \<noteq> i) (compareMethodIds s) \<and>
      i \<notin> set (compareMethodIds (appReducer s (toggleCompareMethod i))) \<and>
      Suc (length (compareMethodIds (appReducer s (toggleCompareMethod i)))) =
        length (compareMethodIds s)) \<and>
   (i \<notin> set (compareMethodIds s) \<and> length (compareMethodIds s) < 3 \<longrightarrow>
      compareMethodIds (appReducer s (toggleCompareMethod i)) = compareMethodIds s @ [i]) \<and>
   (i \<notin> set (compareMethodIds s) \<and> length (compareMethodIds s) = 3 \<longrightarrow>
      appReducer s (toggleCompareMethod i) = s)"
proof -
  assume inv: "length (compareMethodIds s) \<le> 3 \<and> distinct (compareMethodIds s)"
  let ?t = "appReducer s (toggleCompareMethod i)"
  have t: "compareMethodIds ?t =
    (if i \<in> set (compareMethodIds s) then filter (\<lambda>j. j \<noteq> i) (compareMethodIds s)
     else if length (compareMethodIds s) < 3 then compareMethodIds s @ [i]
     else compareMethodIds s)"
    unfolding toggleCompareMethod_def by (rule toggle_ids)
  have a: "i \<in> set (compareMethodIds s) \<longrightarrow>
      compareMethodIds ?t = filter (\<lambda>j. j \<noteq> i) (compareMethodIds s) \<and>
      i \<notin> set (compareMethodIds ?t) \<and>
      Suc (length (compareMethodIds ?t)) = length (compareMethodIds s)"
    using inv remove_one [of "compareMethodIds s" i] by (simp add: t)
  have b: "i \<notin> set (compareMethodIds s) \<and> length (compareMethodIds s) < 3 \<longrightarrow>
      compareMethodIds ?t = compareMethodIds s @ [i]"
    by (simp add: t)
  have c: "i \<notin> set (compareMethodIds s) \<and> length (compareMethodIds s) = 3 \<longrightarrow> ?t = s"
    unfolding toggleCompareMethod_def using toggle_full_noop by blast
  from compare_inv_step [OF inv, of a] compare_inv_all [OF inv, of acts] a b c
  show ?thesis by blast
qed

theorem compare_set_witness:
  "length (compareMethodIds three_marked) \<le> 3 \<and> distinct (compareMethodIds three_marked) \<and>
   appReducer three_marked (toggleCompareMethod ''m-taskless'') = three_marked \<and>
   compareMethodIds (appReducer three_marked (toggleCompareMethod ''m-beta'')) =
     [''m-alpha'', ''m-undated'']"
proof -
  have ids: "compareMethodIds three_marked = [''m-alpha'', ''m-beta'', ''m-undated'']"
    by (simp add: three_marked_def)
  have inv: "length (compareMethodIds three_marked) \<le> 3 \<and> distinct (compareMethodIds three_marked)"
    by (simp add: ids)
  have "appReducer three_marked (toggleCompareMethod ''m-taskless'') = three_marked"
    using compare_set_at_most_three [OF inv, of UNKNOWN_ACTION "[]" "''m-taskless''"]
    by (simp add: ids)
  moreover
  have "compareMethodIds (appReducer three_marked (toggleCompareMethod ''m-beta'')) =
     [''m-alpha'', ''m-undated'']"
    using compare_set_at_most_three [OF inv, of UNKNOWN_ACTION "[]" "''m-beta''"]
    by (simp add: ids)
  ultimately show ?thesis using inv by simp
qed

section \<open>Properties of the radar normalisation\<close>

lemma radar_values_list:
  "radar_values m =
     [js_div (rank_or_1 MATURITY_ORDER (maturity m)) 3,
      js_div (rank_or_1 AUTOMATION_ORDER (automation_level m)) 2,
      Num (min (length_or_1 (modalities m)) 6 / 6),
      Num (min (length_or_1 (tasks m)) 10 / 10),
      Num (min (length_or_1 (inputs m)) 5 / 5),
      Num (min (length_or_1 (outputs m)) 5 / 5)]"
  by (simp add: radar_values_def dimensions_def radar_value_def Let_def)

lemma length_or_1_floor: "length_or_1 arr = max (spec_count arr) 1"
proof (cases arr)
  case None
  then show ?thesis by (simp add: length_or_1_def spec_count_def)
next
  case (Some xs)
  show ?thesis
  proof (cases xs)
    case Nil
    with Some show ?thesis by (simp add: length_or_1_def spec_count_def)
  next
    case (Cons y ys)
    with Some show ?thesis by (simp add: length_or_1_def spec_count_def max_def)
  qed
qed

lemma length_or_1_pos: "1 \<le> length_or_1 arr"
  by (simp add: length_or_1_floor)

lemma capped_range:
  assumes "0 < cap" "1 \<le> (c::rat)"
  shows "0 \<le> min c cap / cap \<and> min c cap / cap \<le> 1"
  using assms by (simp add: min_def)

lemma capped_saturates:
  assumes "0 < cap" "cap \<le> (c::rat)"
  shows "min c cap / cap = 1"
  using assms by (simp add: min_def)

text \<open>A level of the table has its rank; a level that names no inherited property has a rank in range.\<close>

lemma rank_of_known_level:
  "map_of table key = Some r \<Longrightarrow> rank_or_1 table (Some key) = Num r"
  by (simp add: rank_or_1_def js_lookup_def)

lemma maturity_rank_range:
  assumes "plain_level k"
  shows "\<exists>r. rank_or_1 MATURITY_ORDER k = Num r \<and> 0 \<le> r \<and> r \<le> 3"
proof (cases k)
  case None
  then show ?thesis by (simp add: rank_or_1_def js_lookup_def)
next
  case (Some key)
  with assms have "key \<notin> set Object_prototype_keys"
    by (simp add: plain_level_def)
  with Some show ?thesis
    by (simp add: rank_or_1_def js_lookup_def MATURITY_ORDER_def)
qed

lemma automation_rank_range:
  assumes "plain_level k"
  shows "\<exists>r. rank_or_1 AUTOMATION_ORDER k = Num r \<and> 0 \<le> r \<and> r \<le> 2"
proof (cases k)
  case None
  then show ?thesis by (simp add: rank_or_1_def js_lookup_def)
next
  case (Some key)
  with assms have "key \<notin> set Object_prototype_keys"
    by (simp add: plain_level_def)
  with Some show ?thesis
    by (simp add: rank_or_1_def js_lookup_def AUTOMATION_ORDER_def)
qed

text \<open>
  C3, as the specification states it, fails: for a method whose task list is empty the
  plotted tasks value is \<open>1/10\<close>, not \<open>min(0, 10)/10 = 0\<close>; and for a method whose maturity
  string is \<^verbatim>\<open>'toString'\<close>, the name of an inherited property, the plotted maturity value
  is NaN, which is not in [0,1].
\<close>

theorem empty_task_list_plots_one_tenth:
  "tasks taskless = Some [] \<and> radar_values taskless ! 3 = Num (1 / 10) \<and>
   spec_count_value (tasks taskless) 10 = 0 \<and>
   maturity odd_level = Some ''toString'' \<and> radar_values odd_level ! 0 = NaN \<and>
   \<not> in_unit_interval (radar_values odd_level ! 0)"
  by (simp add: radar_values_list spec_count_value_def taskless_def odd_level_def alpha_def
      length_or_1_def spec_count_def rank_or_1_def js_lookup_def js_div_def
      MATURITY_ORDER_def Object_prototype_keys_def in_unit_interval_def)

text \<open>
  C3 (amended): six values are plotted for every method; the computation has no failing
  case.  A maturity level and an automation level of the rank tables give rank/3 and
  rank/2.  For modalities, tasks, inputs and outputs the value is the count of the list,
  raised to at least 1 (a missing or empty list counts as one element) and capped at 6,
  10, 5 and 5, over that cap; it is 1 from the cap on, so a method with 20 tasks has
  the same tasks value 1 as one with 10 tasks.  For a method whose maturity and
  automation level do not name an inherited object property, all six values are numbers
  in [0,1].
\<close>

theorem radar_values_normalised:
  "length (radar_values m) = 6 \<and>
   (\<forall>key r. maturity m = Some key \<and> map_of MATURITY_ORDER key = Some r \<longrightarrow>
      radar_values m ! 0 = Num (r / 3)) \<and>
   (\<forall>key r. automation_level m = Some key \<and> map_of AUTOMATION_ORDER key = Some r \<longrightarrow>
      radar_values m ! 1 = Num (r / 2)) \<and>
   radar_values m ! 2 = Num (floored_count (modalities m) 6) \<and>
   radar_values m ! 3 = Num (floored_count (tasks m) 10) \<and>
   radar_values m ! 4 = Num (floored_count (inputs m) 5) \<and>
   radar_values m ! 5 = Num (floored_count (outputs m) 5) \<and>
   (plain_level (maturity m) \<and> plain_level (automation_level m) \<longrightarrow>
      (\<forall>v \<in> set (radar_values m). in_unit_interval v)) \<and>
   (\<forall>ts. 10 \<le> length ts \<longrightarrow> radar_values (m\<lparr> tasks := Some ts \<rparr>) ! 3 = Num 1) \<and>
   (\<forall>xs. 6 \<le> length xs \<longrightarrow> radar_values (m\<lparr> modalities := Some xs \<rparr>) ! 2 = Num 1) \<and>
   (\<forall>xs. 5 \<le> length xs \<longrightarrow> radar_values (m\<lparr> inputs := Some xs \<rparr>) ! 4 = Num 1) \<and>
   (\<forall>xs. 5 \<le> length xs \<longrightarrow> radar_values (m\<lparr> outputs := Some xs \<rparr>) ! 5 = Num 1)"
proof -
  have len: "length (radar_values m) = 6"
    by (simp add: radar_values_list)
  have mat: "\<forall>key r. maturity m = Some key \<and> map_of MATURITY_ORDER key = Some r \<longrightarrow>
      radar_values m ! 0 = Num (r / 3)"
    by (simp add: radar_values_list rank_of_known_level js_div_def)
  have aut: "\<forall>key r. automation_level m = Some key \<and> map_of AUTOMATION_ORDER key = Some r \<longrightarrow>
      radar_values m ! 1 = Num (r / 2)"
    by (simp add: radar_values_list rank_of_known_level js_div_def)
  have cnt: "radar_values m ! 2 = Num (floored_count (modalities m) 6)"
    "radar_values m ! 3 = Num (floored_count (tasks m) 10)"
    "radar_values m ! 4 = Num (floored_count (inputs m) 5)"
    "radar_values m ! 5 = Num (floored_count (outputs m) 5)"
    by (simp_all add: radar_values_list floored_count_def length_or_1_floor)
  have rng: "plain_level (maturity m) \<and> plain_level (automation_level m) \<longrightarrow>
      (\<forall>v \<in> set (radar_values m). in_unit_interval v)"
  proof
    assume p: "plain_level (maturity m) \<and> plain_level (automation_level m)"
    from p maturity_rank_range obtain r0
      where r0: "rank_or_1 MATURITY_ORDER (maturity m) = Num r0" "0 \<le> r0" "r0 \<le> 3"
      by blast
    from p automation_rank_range obtain r1
      where r1: "rank_or_1 AUTOMATION_ORDER (automation_level m) = Num r1" "0 \<le> r1" "r1 \<le> 2"
      by blast
    show "\<forall>v \<in> set (radar_values m). in_unit_interval v"
      using r0 r1
        capped_range [of 6 "length_or_1 (modalities m)"]
        capped_range [of 10 "length_or_1 (tasks m)"]
        capped_range [of 5 "length_or_1 (inputs m)"]
        capped_range [of 5 "length_or_1 (outputs m)"]
        length_or_1_pos
      by (simp add: radar_values_list js_div_def in_unit_interval_def)
  qed
  have sat: "\<And>xs cap. 0 < cap \<Longrightarrow> cap \<le> of_nat (length xs) \<Longrightarrow>
      min (length_or_1 (Some xs)) cap / cap = 1"
    subgoal for xs cap
      using capped_saturates [of cap "length_or_1 (Some xs)"]
      by (auto simp add: length_or_1_def)
    done
  have t: "\<forall>ts. 10 \<le> length ts \<longrightarrow> radar_values (m\<lparr> tasks := Some ts \<rparr>) ! 3 = Num 1"
    using sat [of 10] by (simp add: radar_values_list)
  have mo: "\<forall>xs. 6 \<le> length xs \<longrightarrow> radar_values (m\<lparr> modalities := Some xs \<rparr>) ! 2 = Num 1"
    using sat [of 6] by (simp add: radar_values_list)
  have i: "\<forall>xs. 5 \<le> length xs \<longrightarrow> radar_values (m\<lparr> inputs := Some xs \<rparr>) ! 4 = Num 1"
    using sat [of 5] by (simp add: radar_values_list)
  have out: "\<forall>xs. 5 \<le> length xs \<longrightarrow> radar_values (m\<lparr> outputs := Some xs \<rparr>) ! 5 = Num 1"
    using sat [of 5] by (simp add: radar_values_list)
  from len mat aut cnt rng t mo i out show ?thesis by blast
qed

theorem radar_values_witness:
  "maturity beta = Some ''mature'' \<and> map_of MATURITY_ORDER ''mature'' = Some 3 \<and>
   radar_values beta ! 0 = Num (3 / 3) \<and>
   plain_level (maturity alpha) \<and> plain_level (automation_level alpha) \<and>
   radar_values alpha = [Num 0, Num 0, Num (1 / 6), Num (1 / 10), Num (1 / 5), Num (1 / 5)] \<and>
   10 \<le> length (replicate 20 ''cleaning'') \<and>
   radar_values (alpha\<lparr> tasks := Some (replicate 20 ''cleaning'') \<rparr>) ! 3 = Num 1 \<and>
   10 \<le> length (replicate 10 ''cleaning'') \<and>
   radar_values (alpha\<lparr> tasks := Some (replicate 10 ''cleaning'') \<rparr>) ! 3 = Num 1"
proof -
  have b: "maturity beta = Some ''mature'' \<and> map_of MATURITY_ORDER ''mature'' = Some 3"
    by (simp add: beta_def alpha_def MATURITY_ORDER_def)
  have p: "plain_level (maturity alpha) \<and> plain_level (automation_level alpha)"
    by (simp add: plain_level_def alpha_def Object_prototype_keys_def)
  have a: "radar_values alpha =
      [Num 0, Num 0, Num (1 / 6), Num (1 / 10), Num (1 / 5), Num (1 / 5)]"
    by (simp add: radar_values_list alpha_def rank_or_1_def js_lookup_def js_div_def
        MATURITY_ORDER_def AUTOMATION_ORDER_def length_or_1_def)
  from radar_values_normalised [of beta] b
  have "radar_values beta ! 0 = Num (3 / 3)" by blast
  with radar_values_normalised [of alpha] a b p show ?thesis by simp
qed

section \<open>Properties of sorting\<close>

text \<open>The insertion sort returns a permutation of its input.\<close>

lemma mset_insert_by: "mset (insert_by c x ys) = add_mset x (mset ys)"
  by (induction ys) auto

lemma mset_js_sort: "mset (js_sort c xs) = mset xs"
  unfolding js_sort_def by (induction xs) (auto simp add: mset_insert_by)

lemma set_insert_by: "set (insert_by c x ys) = insert x (set ys)"
  by (induction ys) auto

lemma set_js_sort: "set (js_sort c xs) = set xs"
  using mset_js_sort [of c xs] by (metis set_mset_mset)

lemma js_sort_Cons: "js_sort c (x # xs) = insert_by c x (js_sort c xs)"
  by (simp add: js_sort_def)

text \<open>
  For a comparison function that is total and transitive on the elements (those that
  satisfy \<open>P\<close>), the result is in order: no element is followed by one that the
  comparison function puts before it.
\<close>

lemma sorted_insert_by:
  assumes total: "\<And>a b. P a \<Longrightarrow> P b \<Longrightarrow> c a b \<le> 0 \<or> c b a \<le> 0"
    and trans: "\<And>a b d. P a \<Longrightarrow> P b \<Longrightarrow> P d \<Longrightarrow> c a b \<le> 0 \<Longrightarrow> c b d \<le> 0 \<Longrightarrow> c a d \<le> 0"
    and "P x"
  shows "\<forall>y \<in> set ys. P y \<Longrightarrow> sorted_wrt (\<lambda>a b. c a b \<le> 0) ys \<Longrightarrow>
         sorted_wrt (\<lambda>a b. c a b \<le> 0) (insert_by c x ys)"
proof (induction ys)
  case Nil
  then show ?case by simp
next
  case (Cons y ys)
  from Cons.prems(1) have py: "P y" and pys: "\<forall>z \<in> set ys. P z"
    by simp_all
  show ?case
  proof (cases "c x y \<le> 0")
    case True
    have "\<forall>z \<in> set ys. c x z \<le> 0"
    proof
      fix z
      assume z: "z \<in> set ys"
      with Cons.prems(2) have "c y z \<le> 0" by simp
      with True show "c x z \<le> 0"
        using trans [OF \<open>P x\<close> py] pys z by blast
    qed
    with True Cons.prems(2) show ?thesis by simp
  next
    case False
    with total [OF \<open>P x\<close> py] have "c y x \<le> 0" by blast
    moreover from Cons.prems(2) have "sorted_wrt (\<lambda>a b. c a b \<le> 0) ys"
      and "\<forall>z \<in> set ys. c y z \<le> 0"
      by simp_all
    ultimately show ?thesis
      using False Cons.IH [OF pys] by (simp add: set_insert_by)
  qed
qed

lemma sorted_js_sort:
  assumes total: "\<And>a b. P a \<Longrightarrow> P b \<Longrightarrow> c a b \<le> 0 \<or> c b a \<le> 0"
    and trans: "\<And>a b d. P a \<Longrightarrow> P b \<Longrightarrow> P d \<Longrightarrow> c a b \<le> 0 \<Longrightarrow> c b d \<le> 0 \<Longrightarrow> c a d \<le> 0"
  shows "\<forall>y \<in> set xs. P y \<Longrightarrow> sorted_wrt (\<lambda>a b. c a b \<le> 0) (js_sort c xs)"
proof (induction xs)
  case Nil
  show ?case by (simp add: js_sort_def)
next
  case (Cons x xs)
  from Cons.prems have px: "P x" and pxs: "\<forall>y \<in> set xs. P y"
    by simp_all
  from pxs have "\<forall>y \<in> set (js_sort c xs). P y"
    by (simp add: set_js_sort)
  then have ps: "\<forall>y \<in> set (js_sort c xs). P y" .
  have "sorted_wrt (\<lambda>a b. c a b \<le> 0) (insert_by c x (js_sort c xs))"
  proof (rule sorted_insert_by [where P = P])
    fix a b
    assume "P a" "P b"
    then show "c a b \<le> 0 \<or> c b a \<le> 0" by (rule total)
  next
    fix a b d
    assume "P a" "P b" "P d" "c a b \<le> 0" "c b d \<le> 0"
    then show "c a d \<le> 0" by (rule trans)
  next
    show "P x" by (rule px)
  next
    show "\<forall>y \<in> set (js_sort c xs). P y" by (rule ps)
  next
    show "sorted_wrt (\<lambda>a b. c a b \<le> 0) (js_sort c xs)" by (rule Cons.IH [OF pxs])
  qed
  then show ?case
    by (simp add: js_sort_Cons)
qed

text \<open>
  Stability: the elements that compare as equal to a given one are in the result in
  the order of the input.
\<close>

lemma stable_insert_by:
  assumes sym: "\<And>a b. P a \<Longrightarrow> P b \<Longrightarrow> c a b = 0 \<Longrightarrow> c b a = 0"
    and trans: "\<And>a b d. P a \<Longrightarrow> P b \<Longrightarrow> P d \<Longrightarrow> c a b = 0 \<Longrightarrow> c b d = 0 \<Longrightarrow> c a d = 0"
    and "P k" and "P x"
  shows "\<forall>y \<in> set ys. P y \<Longrightarrow>
         filter (\<lambda>y. c k y = 0) (insert_by c x ys) =
         (if c k x = 0 then x # filter (\<lambda>y. c k y = 0) ys else filter (\<lambda>y. c k y = 0) ys)"
proof (induction ys)
  case Nil
  then show ?case by simp
next
  case (Cons y ys)
  from Cons.prems have py: "P y" and pys: "\<forall>z \<in> set ys. P z"
    by simp_all
  show ?case
  proof (cases "c x y \<le> 0")
    case True
    then show ?thesis by simp
  next
    case False
    then have "c x y \<noteq> 0" by simp
    have "\<not> (c k x = 0 \<and> c k y = 0)"
    proof
      assume h: "c k x = 0 \<and> c k y = 0"
      then have "c x k = 0"
        using sym [OF \<open>P k\<close> \<open>P x\<close>] by blast
      with h have "c x y = 0"
        using trans [OF \<open>P x\<close> \<open>P k\<close> py] by blast
      with \<open>c x y \<noteq> 0\<close> show False by simp
    qed
    with False Cons.IH [OF pys] show ?thesis by auto
  qed
qed

lemma stable_js_sort:
  assumes sym: "\<And>a b. P a \<Longrightarrow> P b \<Longrightarrow> c a b = 0 \<Longrightarrow> c b a = 0"
    and trans: "\<And>a b d. P a \<Longrightarrow> P b \<Longrightarrow> P d \<Longrightarrow> c a b = 0 \<Longrightarrow> c b d = 0 \<Longrightarrow> c a d = 0"
    and "P k"
  shows "\<forall>y \<in> set xs. P y \<Longrightarrow>
         filter (\<lambda>y. c k y = 0) (js_sort c xs) = filter (\<lambda>y. c k y = 0) xs"
proof (induction xs)
  case Nil
  show ?case by (simp add: js_sort_def)
next
  case (Cons x xs)
  from Cons.prems have px: "P x" and pxs: "\<forall>y \<in> set xs. P y"
    by simp_all
  from pxs have ps: "\<forall>y \<in> set (js_sort c xs). P y"
    by (simp add: set_js_sort)
  have "filter (\<lambda>y. c k y = 0) (js_sort c (x # xs)) =
        filter (\<lambda>y. c k y = 0) (insert_by c x (js_sort c xs))"
    by (simp add: js_sort_Cons)
  also have "\<dots> = (if c k x = 0 then x # filter (\<lambda>y. c k y = 0) (js_sort c xs)
                    else filter (\<lambda>y. c k y = 0) (js_sort c xs))"
  proof (rule stable_insert_by [where P = P])
    fix a b
    assume "P a" "P b" "c a b = 0"
    then show "c b a = 0" by (rule sym)
  next
    fix a b d
    assume "P a" "P b" "P d" "c a b = 0" "c b d = 0"
    then show "c a d = 0" by (rule trans)
  next
    show "P k" by (rule \<open>P k\<close>)
  next
    show "P x" by (rule px)
  next
    show "\<forall>y \<in> set (js_sort c xs). P y" by (rule ps)
  qed
  also have "\<dots> = filter (\<lambda>y. c k y = 0) (x # xs)"
    by (simp add: Cons.IH [OF pxs])
  finally show ?case .
qed

subsection \<open>The comparison function of \<open>sortMethods\<close>\<close>

text \<open>\<^verbatim>\<open>'desc'\<close> negates what the sort reads; every other order string leaves it as it is.\<close>

lemma comparator_desc: "comparator lc k ''desc'' a b = - comparator lc k ''asc'' a b"
  by (cases "comparison lc k a b") (simp_all add: comparator_def compare_fn_def js_neg_def)

lemma comparator_not_desc: "ord \<noteq> ''desc'' \<Longrightarrow> comparator lc k ord a b = comparator lc k ''asc'' a b"
  by (simp add: comparator_def compare_fn_def)

text \<open>The value for each sort key.\<close>

lemma comparator_asc_value:
  "k \<noteq> ''maturity'' \<Longrightarrow>
   comparator lc k ''asc'' a b =
     (if k = ''name'' then of_int (lc (name a) (name b))
      else if k = ''year'' then of_int (year_or_0 a - year_or_0 b)
      else if k = ''pipeline_step'' then of_int (lc (pipeline_step a) (pipeline_step b))
      else if k = ''searchScore'' then score_or_1 a - score_or_1 b
      else 0)"
  by (simp add: comparator_def compare_fn_def comparison_def)

lemma comparator_asc_maturity:
  "maturity_or_0 a = Num va \<Longrightarrow> maturity_or_0 b = Num vb \<Longrightarrow>
   comparator lc ''maturity'' ''asc'' a b = va - vb"
  by (simp add: comparator_def compare_fn_def comparison_def js_sub_def)


lemma plain_level_rank:
  assumes "plain_level (maturity m)"
  shows "\<exists>v. maturity_or_0 m = Num v"
proof (cases "maturity m")
  case None
  then show ?thesis by (simp add: maturity_or_0_def js_lookup_def)
next
  case (Some key)
  with assms have "key \<notin> set Object_prototype_keys"
    by (simp add: plain_level_def)
  with Some show ?thesis
    by (cases "map_of maturityOrder key") (simp_all add: maturity_or_0_def js_lookup_def)
qed

text \<open>
  On methods whose maturity names no inherited property when the key is
  \<^verbatim>\<open>'maturity'\<close>, and for a consistent \<^verbatim>\<open>localeCompare\<close>, the comparison function is
  consistent.
\<close>

lemma comparator_asc_antisym:
  assumes lc: "consistent_compare lc"
    and pa: "k = ''maturity'' \<longrightarrow> plain_level (maturity a)"
    and pb: "k = ''maturity'' \<longrightarrow> plain_level (maturity b)"
  shows "(comparator lc k ''asc'' a b < 0) = (0 < comparator lc k ''asc'' b a)"
proof (cases "k = ''maturity''")
  case True
  with pa pb plain_level_rank obtain va vb
    where "maturity_or_0 a = Num va" "maturity_or_0 b = Num vb"
    by blast
  then show ?thesis
    unfolding True by (simp add: comparator_asc_maturity)
next
  case False
  from lc have l: "\<And>x y. (lc x y < 0) = (0 < lc y x)"
    by (simp add: consistent_compare_def)
  show ?thesis
    unfolding comparator_asc_value [OF False] by (simp add: l)
qed

lemma comparator_asc_trans:
  assumes lc: "consistent_compare lc"
    and pa: "k = ''maturity'' \<longrightarrow> plain_level (maturity a)"
    and pb: "k = ''maturity'' \<longrightarrow> plain_level (maturity b)"
    and pd: "k = ''maturity'' \<longrightarrow> plain_level (maturity d)"
    and ab: "comparator lc k ''asc'' a b \<le> 0" and bd: "comparator lc k ''asc'' b d \<le> 0"
  shows "comparator lc k ''asc'' a d \<le> 0"
proof (cases "k = ''maturity''")
  case True
  with pa pb pd plain_level_rank obtain va vb vd
    where v: "maturity_or_0 a = Num va" "maturity_or_0 b = Num vb" "maturity_or_0 d = Num vd"
    by blast
  from ab bd show ?thesis
    unfolding True by (simp add: comparator_asc_maturity v)
next
  case False
  from lc have t: "\<And>x y z. lc x y \<le> 0 \<Longrightarrow> lc y z \<le> 0 \<Longrightarrow> lc x z \<le> 0"
    unfolding consistent_compare_def by blast
  have n: "lc (name a) (name b) \<le> 0 \<Longrightarrow> lc (name b) (name d) \<le> 0 \<Longrightarrow>
      lc (name a) (name d) \<le> 0"
    by (rule t)
  have p: "lc (pipeline_step a) (pipeline_step b) \<le> 0 \<Longrightarrow>
      lc (pipeline_step b) (pipeline_step d) \<le> 0 \<Longrightarrow>
      lc (pipeline_step a) (pipeline_step d) \<le> 0"
    by (rule t)
  from ab bd n p show ?thesis
    unfolding comparator_asc_value [OF False] by (simp split: if_splits)
qed

lemma comparator_asc_flip:
  assumes lc: "consistent_compare lc"
    and pa: "k = ''maturity'' \<longrightarrow> plain_level (maturity a)"
    and pb: "k = ''maturity'' \<longrightarrow> plain_level (maturity b)"
  shows "(0 \<le> comparator lc k ''asc'' a b) = (comparator lc k ''asc'' b a \<le> 0)"
proof -
  have "(comparator lc k ''asc'' a b < 0) = (0 < comparator lc k ''asc'' b a)"
    by (rule comparator_asc_antisym [OF lc pa pb])
  then show ?thesis by linarith
qed

lemma comparator_total:
  assumes lc: "consistent_compare lc"
    and pa: "k = ''maturity'' \<longrightarrow> plain_level (maturity a)"
    and pb: "k = ''maturity'' \<longrightarrow> plain_level (maturity b)"
  shows "comparator lc k ord a b \<le> 0 \<or> comparator lc k ord b a \<le> 0"
proof -
  have f: "(0 \<le> comparator lc k ''asc'' a b) = (comparator lc k ''asc'' b a \<le> 0)"
    by (rule comparator_asc_flip [OF lc pa pb])
  have g: "(0 \<le> comparator lc k ''asc'' b a) = (comparator lc k ''asc'' a b \<le> 0)"
    by (rule comparator_asc_flip [OF lc pb pa])
  show ?thesis
  proof (cases "ord = ''desc''")
    case True
    from f g show ?thesis
      unfolding True comparator_desc by linarith
  next
    case False
    from f g show ?thesis
      unfolding comparator_not_desc [OF False] by linarith
  qed
qed

lemma comparator_trans:
  assumes lc: "consistent_compare lc"
    and pa: "k = ''maturity'' \<longrightarrow> plain_level (maturity a)"
    and pb: "k = ''maturity'' \<longrightarrow> plain_level (maturity b)"
    and pd: "k = ''maturity'' \<longrightarrow> plain_level (maturity d)"
    and ab: "comparator lc k ord a b \<le> 0" and bd: "comparator lc k ord b d \<le> 0"
  shows "comparator lc k ord a d \<le> 0"
proof (cases "ord = ''desc''")
  case True
  from ab have "0 \<le> comparator lc k ''asc'' a b"
    unfolding True comparator_desc by simp
  then have ba: "comparator lc k ''asc'' b a \<le> 0"
    unfolding comparator_asc_flip [OF lc pa pb] .
  from bd have "0 \<le> comparator lc k ''asc'' b d"
    unfolding True comparator_desc by simp
  then have db: "comparator lc k ''asc'' d b \<le> 0"
    unfolding comparator_asc_flip [OF lc pb pd] .
  from db ba have "comparator lc k ''asc'' d a \<le> 0"
    by (rule comparator_asc_trans [OF lc pd pb pa])
  then have "0 \<le> comparator lc k ''asc'' a d"
    unfolding comparator_asc_flip [OF lc pa pd] .
  then show ?thesis
    unfolding True comparator_desc by simp
next
  case False
  from ab bd show ?thesis
    unfolding comparator_not_desc [OF False]
    by (rule comparator_asc_trans [OF lc pa pb pd])
qed

lemma comparator_zero: "(comparator lc k ord a b = 0) = (comparator lc k ''asc'' a b = 0)"
proof (cases "ord = ''desc''")
  case True
  show ?thesis
    unfolding True comparator_desc by simp
next
  case False
  show ?thesis
    unfolding comparator_not_desc [OF False] by simp
qed

lemma comparator_asc_zero:
  assumes lc: "consistent_compare lc"
    and pa: "k = ''maturity'' \<longrightarrow> plain_level (maturity a)"
    and pb: "k = ''maturity'' \<longrightarrow> plain_level (maturity b)"
  shows "(comparator lc k ''asc'' a b = 0) =
         (comparator lc k ''asc'' a b \<le> 0 \<and> comparator lc k ''asc'' b a \<le> 0)"
proof -
  have "(0 \<le> comparator lc k ''asc'' a b) = (comparator lc k ''asc'' b a \<le> 0)"
    by (rule comparator_asc_flip [OF lc pa pb])
  then show ?thesis by linarith
qed

lemma comparator_zero_sym:
  assumes lc: "consistent_compare lc"
    and pa: "k = ''maturity'' \<longrightarrow> plain_level (maturity a)"
    and pb: "k = ''maturity'' \<longrightarrow> plain_level (maturity b)"
    and ab: "comparator lc k ord a b = 0"
  shows "comparator lc k ord b a = 0"
proof -
  from ab have "comparator lc k ''asc'' a b \<le> 0 \<and> comparator lc k ''asc'' b a \<le> 0"
    unfolding comparator_zero [of lc k ord] comparator_asc_zero [OF lc pa pb] .
  then have "comparator lc k ''asc'' b a = 0"
    unfolding comparator_asc_zero [OF lc pb pa] by simp
  then show ?thesis
    unfolding comparator_zero [of lc k ord] .
qed

lemma comparator_zero_trans:
  assumes lc: "consistent_compare lc"
    and pa: "k = ''maturity'' \<longrightarrow> plain_level (maturity a)"
    and pb: "k = ''maturity'' \<longrightarrow> plain_level (maturity b)"
    and pd: "k = ''maturity'' \<longrightarrow> plain_level (maturity d)"
    and ab: "comparator lc k ord a b = 0" and bd: "comparator lc k ord b d = 0"
  shows "comparator lc k ord a d = 0"
proof -
  from ab have 1: "comparator lc k ''asc'' a b \<le> 0" "comparator lc k ''asc'' b a \<le> 0"
    unfolding comparator_zero [of lc k ord] comparator_asc_zero [OF lc pa pb] by simp_all
  from bd have 2: "comparator lc k ''asc'' b d \<le> 0" "comparator lc k ''asc'' d b \<le> 0"
    unfolding comparator_zero [of lc k ord] comparator_asc_zero [OF lc pb pd] by simp_all
  from 1(1) 2(1) have "comparator lc k ''asc'' a d \<le> 0"
    by (rule comparator_asc_trans [OF lc pa pb pd])
  moreover from 2(2) 1(2) have "comparator lc k ''asc'' d a \<le> 0"
    by (rule comparator_asc_trans [OF lc pd pb pa])
  ultimately have "comparator lc k ''asc'' a d = 0"
    unfolding comparator_asc_zero [OF lc pa pd] by simp
  then show ?thesis
    unfolding comparator_zero [of lc k ord] .
qed

subsection \<open>The comparison by code units is consistent\<close>

lemma code_unit_compare_antisym: "(code_unit_compare a b < 0) = (0 < code_unit_compare b a)"
  by (induction a b rule: code_unit_compare.induct) simp_all

lemma code_unit_compare_Cons_le:
  "(code_unit_compare (x # xs) (y # ys) \<le> 0) =
   ((of_char x :: nat) < of_char y \<or> (of_char x :: nat) = of_char y \<and> code_unit_compare xs ys \<le> 0)"
  by auto

lemma code_unit_compare_trans:
  "code_unit_compare a b \<le> 0 \<Longrightarrow> code_unit_compare b d \<le> 0 \<Longrightarrow> code_unit_compare a d \<le> 0"
proof (induction a arbitrary: b d)
  case Nil
  then show ?case by (cases d) simp_all
next
  case (Cons x xs)
  from Cons.prems(1) obtain y ys where b: "b = y # ys"
    by (cases b) simp_all
  from Cons.prems(2) b obtain z zs where d: "d = z # zs"
    by (cases d) simp_all
  from Cons.prems(1) have xy: "(of_char x :: nat) < of_char y \<or>
      (of_char x :: nat) = of_char y \<and> code_unit_compare xs ys \<le> 0"
    unfolding b code_unit_compare_Cons_le .
  from Cons.prems(2) have yz: "(of_char y :: nat) < of_char z \<or>
      (of_char y :: nat) = of_char z \<and> code_unit_compare ys zs \<le> 0"
    unfolding b d code_unit_compare_Cons_le .
  have "(of_char x :: nat) < of_char z \<or>
      (of_char x :: nat) = of_char z \<and> code_unit_compare xs zs \<le> 0"
  proof (cases "(of_char x :: nat) < of_char z")
    case True
    then show ?thesis by simp
  next
    case False
    with xy yz have "(of_char x :: nat) = of_char z" "code_unit_compare xs ys \<le> 0"
      "code_unit_compare ys zs \<le> 0"
      by linarith+
    with Cons.IH [of ys zs] show ?thesis by simp
  qed
  then show ?case unfolding d code_unit_compare_Cons_le .
qed

lemma code_unit_compare_consistent: "consistent_compare code_unit_compare"
  unfolding consistent_compare_def
proof (intro conjI allI impI)
  fix a b
  show "(code_unit_compare a b < 0) = (0 < code_unit_compare b a)"
    by (rule code_unit_compare_antisym)
next
  fix a b c
  assume "code_unit_compare a b \<le> 0" "code_unit_compare b c \<le> 0"
  then show "code_unit_compare a c \<le> 0"
    by (rule code_unit_compare_trans)
qed

subsection \<open>\<open>sortMethods\<close> on methods with plain maturity levels\<close>

lemma sortMethods_st_result:
  assumes "cells st r = Some xs" and "r < next_ref st"
  shows "sortMethods_st lc st r k ord =
     Some (st\<lparr> cells := (cells st)(next_ref st \<mapsto> sortMethods lc xs k ord),
               next_ref := Suc (next_ref st) \<rparr>, next_ref st)"
  using assms
  by (simp add: sortMethods_st_def spread_copy_def sort_in_place_def sortMethods_def)

text \<open>
  The array that was passed in is unchanged in the store: the result is a new array.
\<close>

lemma sortMethods_keeps_input:
  assumes "cells st r = Some xs" and "r < next_ref st"
  shows "\<exists>st' r'. sortMethods_st lc st r k ord = Some (st', r') \<and> r' \<noteq> r \<and>
          cells st' r = Some xs \<and> cells st' r' = Some (sortMethods lc xs k ord)"
  using assms sortMethods_st_result [OF assms, of lc k ord] by simp

text \<open>
  For a consistent \<^verbatim>\<open>localeCompare\<close> and, under the key \<^verbatim>\<open>'maturity'\<close>, methods whose
  maturity names no inherited property, \<open>sortMethods\<close> returns a permutation of the
  methods that is in the order of the comparison function, ascending for \<^verbatim>\<open>'asc'\<close> and
  descending for \<^verbatim>\<open>'desc'\<close>, and it is stable: the methods that compare as equal to
  one of the methods are in the result in their input order, for every order string.
\<close>

lemma sortMethods_stable_on_plain_levels:
  assumes lc: "consistent_compare lc"
    and plain: "k = ''maturity'' \<longrightarrow> (\<forall>m \<in> set xs. plain_level (maturity m))"
  shows "mset (sortMethods lc xs k ord) = mset xs"
    and "sorted_wrt (\<lambda>a b. comparator lc k ord a b \<le> 0) (sortMethods lc xs k ord)"
    and "sorted_wrt (\<lambda>a b. comparator lc k ''asc'' a b \<le> 0) (sortMethods lc xs k ''asc'')"
    and "sorted_wrt (\<lambda>a b. 0 \<le> comparator lc k ''asc'' a b) (sortMethods lc xs k ''desc'')"
    and "x \<in> set xs \<Longrightarrow>
         filter (\<lambda>y. comparator lc k ''asc'' x y = 0) (sortMethods lc xs k ord) =
         filter (\<lambda>y. comparator lc k ''asc'' x y = 0) xs"
proof -
  let ?P = "\<lambda>m :: method_entry. k = ''maturity'' \<longrightarrow> plain_level (maturity m)"
  from plain have all: "\<forall>y \<in> set xs. ?P y"
    by blast
  show "mset (sortMethods lc xs k ord) = mset xs"
    by (simp add: sortMethods_def mset_js_sort)
  have s: "sorted_wrt (\<lambda>a b. comparator lc k o' a b \<le> 0) (js_sort (comparator lc k o') xs)" for o'
  proof (rule sorted_js_sort [where P = ?P])
    fix a b
    assume "?P a" "?P b"
    then show "comparator lc k o' a b \<le> 0 \<or> comparator lc k o' b a \<le> 0"
      by (rule comparator_total [OF lc])
  next
    fix a b d
    assume "?P a" "?P b" "?P d" "comparator lc k o' a b \<le> 0" "comparator lc k o' b d \<le> 0"
    then show "comparator lc k o' a d \<le> 0"
      by (rule comparator_trans [OF lc])
  next
    show "\<forall>y \<in> set xs. ?P y" by (rule all)
  qed
  from s [of ord]
  show "sorted_wrt (\<lambda>a b. comparator lc k ord a b \<le> 0) (sortMethods lc xs k ord)"
    by (simp add: sortMethods_def)
  from s [of "''asc''"]
  show "sorted_wrt (\<lambda>a b. comparator lc k ''asc'' a b \<le> 0) (sortMethods lc xs k ''asc'')"
    by (simp add: sortMethods_def)
  from s [of "''desc''"]
  show "sorted_wrt (\<lambda>a b. 0 \<le> comparator lc k ''asc'' a b) (sortMethods lc xs k ''desc'')"
    by (simp add: sortMethods_def comparator_desc)
  show "filter (\<lambda>y. comparator lc k ''asc'' x y = 0) (sortMethods lc xs k ord) =
        filter (\<lambda>y. comparator lc k ''asc'' x y = 0) xs" if x: "x \<in> set xs"
  proof -
    have "filter (\<lambda>y. comparator lc k ord x y = 0) (js_sort (comparator lc k ord) xs) =
          filter (\<lambda>y. comparator lc k ord x y = 0) xs"
    proof (rule stable_js_sort [where P = ?P])
      fix a b
      assume "?P a" "?P b" "comparator lc k ord a b = 0"
      then show "comparator lc k ord b a = 0"
        by (rule comparator_zero_sym [OF lc])
    next
      fix a b d
      assume "?P a" "?P b" "?P d" "comparator lc k ord a b = 0" "comparator lc k ord b d = 0"
      then show "comparator lc k ord a d = 0"
        by (rule comparator_zero_trans [OF lc])
    next
      from all x show "?P x" by blast
    next
      show "\<forall>y \<in> set xs. ?P y" by (rule all)
    qed
    then show ?thesis
      unfolding sortMethods_def comparator_zero [of lc k ord] .
  qed
qed

lemma sortMethods_keeps_input_example:
  "\<exists>st' r'. sortMethods_st code_unit_compare one_array 0 ''year'' ''desc'' = Some (st', r') \<and>
      r' \<noteq> 0 \<and> cells st' 0 = Some [beta, alpha, taskless] \<and>
      cells st' r' = Some (sortMethods code_unit_compare [beta, alpha, taskless] ''year'' ''desc'')"
proof -
  have "cells one_array 0 = Some [beta, alpha, taskless]" "0 < next_ref one_array"
    by (simp_all add: one_array_def)
  then show ?thesis
    by (rule sortMethods_keeps_input)
qed

text \<open>Sorting three methods by year, by name and by maturity.\<close>

lemma sortMethods_examples:
  "sortMethods code_unit_compare [beta, alpha, taskless] ''year'' ''asc'' = [alpha, taskless, beta]"
  "sortMethods code_unit_compare [beta, alpha, taskless] ''year'' ''desc'' = [beta, alpha, taskless]"
  "sortMethods code_unit_compare [beta, taskless, alpha] ''name'' ''asc'' = [alpha, beta, taskless]"
  "sortMethods code_unit_compare [beta, emerging_one, alpha] ''maturity'' ''asc'' =
     [alpha, emerging_one, beta]"
  "sortMethods code_unit_compare [alpha, emerging_one, beta] ''maturity'' ''desc'' =
     [beta, emerging_one, alpha]"
  by (simp_all add: sortMethods_def js_sort_def comparator_def compare_fn_def comparison_def
      js_sub_def js_neg_def year_or_0_def year_of_def maturity_or_0_def js_lookup_def
      maturityOrder_def alpha_def beta_def taskless_def emerging_one_def)

subsection \<open>A maturity that names an inherited property\<close>




subsection \<open>Sorting by search score\<close>

lemma score_cmp: "comparator lc ''searchScore'' ''asc'' a b = score_or_1 a - score_or_1 b"
  by (simp add: comparator_asc_value)

lemma sorted_by_score:
  "sorted_wrt (\<lambda>a b. score_or_1 a \<le> score_or_1 b) (sortMethods lc ms ''searchScore'' ''asc'')"
proof -
  have "sorted_wrt (\<lambda>a b. comparator lc ''searchScore'' ''asc'' a b \<le> 0)
          (js_sort (comparator lc ''searchScore'' ''asc'') ms)"
    by (rule sorted_js_sort [where P = "\<lambda>_. True"]) (auto simp add: score_cmp)
  then show ?thesis
    by (simp add: sortMethods_def score_cmp)
qed

text \<open>
  C10: under the key \<^verbatim>\<open>'searchScore'\<close> a method whose score is exactly \<open>0\<close> gets the
  sort value \<open>1\<close>, as a method without a score does.  Against a method with a score \<open>s\<close>,
  \<open>0 < s \<le> 1\<close> (Fuse.js scores lie between 0 and 1), the ascending comparison function
  gives \<open>1 - s \<ge> 0\<close>: the perfect match is not put before it; and for \<open>s < 1\<close> the method
  with score \<open>s\<close> never comes after the perfect match in the sorted result.
\<close>

theorem perfect_score_sorts_last:
  "(searchScore a = Some 0 \<longrightarrow> score_or_1 a = 1) \<and>
   (searchScore a = None \<longrightarrow> score_or_1 a = 1) \<and>
   (searchScore a = Some 0 \<and> searchScore b = Some s \<and> 0 < s \<and> s \<le> 1 \<longrightarrow>
      comparator lc ''searchScore'' ''asc'' a b = 1 - s \<and>
      0 \<le> comparator lc ''searchScore'' ''asc'' a b) \<and>
   (searchScore a = Some 0 \<and> searchScore b = Some s \<and> 0 < s \<and> s < 1 \<longrightarrow>
      (\<forall>us vs. sortMethods lc ms ''searchScore'' ''asc'' = us @ a # vs \<longrightarrow> b \<notin> set vs))"
proof -
  have k0: "searchScore a = Some 0 \<longrightarrow> score_or_1 a = 1"
    by (simp add: score_or_1_def)
  have kn: "searchScore a = None \<longrightarrow> score_or_1 a = 1"
    by (simp add: score_or_1_def)
  have c: "searchScore a = Some 0 \<and> searchScore b = Some s \<and> 0 < s \<and> s \<le> 1 \<longrightarrow>
      comparator lc ''searchScore'' ''asc'' a b = 1 - s \<and>
      0 \<le> comparator lc ''searchScore'' ''asc'' a b"
    by (simp add: score_cmp score_or_1_def)
  have p: "searchScore a = Some 0 \<and> searchScore b = Some s \<and> 0 < s \<and> s < 1 \<longrightarrow>
      (\<forall>us vs. sortMethods lc ms ''searchScore'' ''asc'' = us @ a # vs \<longrightarrow> b \<notin> set vs)"
  proof (intro impI allI)
    fix us vs
    assume h: "searchScore a = Some 0 \<and> searchScore b = Some s \<and> 0 < s \<and> s < 1"
      and d: "sortMethods lc ms ''searchScore'' ''asc'' = us @ a # vs"
    from h have ab: "\<not> score_or_1 a \<le> score_or_1 b"
      by (simp add: score_or_1_def)
    from sorted_by_score [of lc ms] have "\<forall>y \<in> set vs. score_or_1 a \<le> score_or_1 y"
      unfolding d by (simp add: sorted_wrt_append)
    with ab show "b \<notin> set vs" by blast
  qed
  from k0 kn c p show ?thesis by blast
qed

theorem perfect_score_sorts_last_witness:
  "searchScore perfect_hit = Some 0 \<and> searchScore weak_hit = Some (2 / 5) \<and>
   score_or_1 perfect_hit = 1 \<and>
   comparator code_unit_compare ''searchScore'' ''asc'' perfect_hit weak_hit = 1 - 2 / 5 \<and>
   sortMethods code_unit_compare [perfect_hit, weak_hit] ''searchScore'' ''asc'' =
     [weak_hit, perfect_hit]"
proof -
  have h: "searchScore perfect_hit = Some 0 \<and> searchScore weak_hit = Some (2 / 5)"
    by (simp add: perfect_hit_def weak_hit_def)
  have e: "sortMethods code_unit_compare [perfect_hit, weak_hit] ''searchScore'' ''asc'' =
     [weak_hit, perfect_hit]"
    by (simp add: sortMethods_def js_sort_def score_cmp score_or_1_def
        perfect_hit_def weak_hit_def)
  from perfect_score_sorts_last [of perfect_hit weak_hit "2 / 5" code_unit_compare
      "[perfect_hit, weak_hit]"] h e
  show ?thesis by simp
qed

end
